theory Spec2Isabelle
  imports Complex_Main
begin

section \<open>WorldSeedr: data model\<close>

text \<open>
  A shallow embedding of \<^verbatim>\<open>src/Source/WorldSeedr.ts\<close>. JavaScript numbers are
  idealised as \<^typ>\<open>real\<close>: sums, differences and products are exact, where the
  source rounds them to doubles, and there is no NaN among the inputs. The inputs of
  the examples below are small integers and quarters, on which the arithmetic of
  doubles is exact as well. A property
  that may be missing is an \<^typ>\<open>'a option\<close>, with \<open>None\<close> for \<^verbatim>\<open>undefined\<close>.
  A direction, mode or snap that is missing is the empty string, which the source
  treats like any string that is none of the names it switches on.

  The source hands the \<^verbatim>\<open>arguments\<close> object of a child reference, itself and not
  a copy, to every node parsed from it, and writes into it. These objects are
  therefore kept in a store of the instance, \<open>objects\<close>, under addresses; a child
  reference and a node hold the address. Positions and nodes are copied or finished
  by the source before anything else can see them, and are values here.
\<close>

datatype jsval =
    JUndefined
  | JNumber real
  | JString string
  | JBoolean bool
  | JObject "(string \<times> jsval) list"
  | JArray "jsval list"
  | JRef nat

type_synonym jsobject = "(string \<times> jsval) list"

text \<open>Anything \<^verbatim>\<open>chooseAmong\<close> can draw from carries a \<^verbatim>\<open>.percent\<close>.\<close>

record weighted =
  percent :: "real option"

text \<open>\<^verbatim>\<open>IPossibilitySpacing\<close>: \<^verbatim>\<open>{min, max, units?}\<close>.\<close>

record possibility_spacing =
  min' :: real
  max' :: real
  units :: "real option"

text \<open>The \<^verbatim>\<open>.value\<close> of a weighted spacing alternative: a number or a spacing object.\<close>

datatype spacing_value = ValueNumber real | ValueObject possibility_spacing

record spacing_choice = weighted +
  value' :: spacing_value

text \<open>
  The \<^verbatim>\<open>spacing\<close> parameter, \<^verbatim>\<open>number | number[] | IPossibilitySpacing\<close> or a
  list of weighted alternatives, or missing.
\<close>

datatype spacing =
    Undefined
  | Number real
  | MinMax real real
  | Choices "spacing_choice list"
  | Object possibility_spacing

text \<open>Whatever has a \<^verbatim>\<open>.width\<close> and a \<^verbatim>\<open>.height\<close>: schemas, positions, nodes.\<close>

record sized =
  width :: real
  height :: real

text \<open>\<^verbatim>\<open>IPosition\<close>: a bounding box; \<open>top'\<close> is the source's \<^verbatim>\<open>top\<close>.\<close>

record position = sized +
  top' :: real
  right :: real
  bottom :: real
  left :: real

text \<open>
  A weighted alternative of a child reference's \<^verbatim>\<open>arguments\<close> array; \<open>values'\<close> is
  the address of its \<^verbatim>\<open>.values\<close> object.
\<close>

record arguments_choice = weighted +
  values' :: "nat option"

text \<open>
  The \<^verbatim>\<open>arguments\<close> of a child reference: missing, an object (its address), or an
  array of weighted alternatives (the address of the array, which can be given
  properties like any object, and its elements).
\<close>

datatype child_arguments =
    NoArguments
  | Literal nat
  | Alternatives nat "arguments_choice list"

text \<open>
  The \<^verbatim>\<open>arguments\<close> of a node: an object of the store, shared with the child
  reference it comes from, or an object the parser has made for this node alone with
  \<^verbatim>\<open>output.arguments = {}\<close>.
\<close>

datatype object_ref = Shared nat | Own jsobject

record sizing_override =
  sizingWidth :: "real option"
  sizingHeight :: "real option"

record stretch_flags =
  stretchWidth :: bool
  stretchHeight :: bool

text \<open>
  \<^verbatim>\<open>IPossibilityChild\<close>, with the optional properties the code reads; \<open>extra\<close>
  holds any further own properties (an \<^verbatim>\<open>argumentMap\<close> may name them).
\<close>

record possibility_child = weighted +
  title :: string
  type :: string
  source :: "string option"
  sizing :: "sizing_override option"
  arguments :: child_arguments
  stretch :: "stretch_flags option"
  extra :: jsobject

text \<open>\<^verbatim>\<open>IPossibilityContents\<close>, with \<^verbatim>\<open>limit\<close> and \<^verbatim>\<open>argumentMap\<close>.\<close>

record possibility_contents =
  direction :: string
  mode :: string
  snap :: string
  children :: "possibility_child list"
  spacing :: spacing
  limit :: "real option"
  argumentMap :: "(string \<times> string) list option"

text \<open>\<^verbatim>\<open>IPossibility\<close>; \<open>contents = None\<close> is a schema without \<^verbatim>\<open>contents\<close>.\<close>

record possibility = sized +
  contents :: "possibility_contents option"

text \<open>
  \<^verbatim>\<open>IChoice\<close>, a generated node: \<open>carguments\<close> is its \<^verbatim>\<open>.arguments\<close>, \<open>box\<close>
  holds its \<^verbatim>\<open>width, height, top, right, bottom, left\<close>; \<open>ccontents\<close> is its
  \<^verbatim>\<open>.contents\<close>, the result of \<^verbatim>\<open>generate\<close> (\<open>None\<close> when missing or
  \<^verbatim>\<open>undefined\<close>). \<open>generated\<close> is what
  \<^verbatim>\<open>getPositionExtremes\<close> returns: \<^verbatim>\<open>{top, right, bottom, left, children}\<close>.
\<close>

datatype choice =
  Choice (ctitle: string) (ctype: string) (carguments: "object_ref option")
    (box: position) (ccontents: "generated option")
and generated =
  Generated (gtop: real) (gright: real) (gbottom: real) (gleft: real)
    (gchildren: "choice list")

text \<open>
  The \<^verbatim>\<open>WorldSeedr\<close> instance. \<open>possibilities\<close> is the lookup
  \<^verbatim>\<open>this.possibilities[name]\<close>, \<open>None\<close> where it is \<^verbatim>\<open>undefined\<close>. \<open>random\<close> is
  the injected source as the sequence of the numbers it returns, \<open>drawn\<close> counts the
  calls made so far, and \<open>onPlacementCalls\<close> records the argument of each call of the
  \<^verbatim>\<open>onPlacement\<close> callback. \<open>objects\<close> holds the \<^verbatim>\<open>arguments\<close> objects of the
  registry: the properties of the object at each address, as they are now.
\<close>

record world_seedr =
  possibilities :: "string \<Rightarrow> possibility option"
  objects :: "nat \<Rightarrow> jsobject"
  random :: "nat \<Rightarrow> real"
  drawn :: nat
  onPlacementCalls :: "choice list list"
  generatedCommands :: "choice list"

text \<open>
  The two \<^verbatim>\<open>Error\<close>s \<^verbatim>\<open>generate\<close> throws, and the \<^verbatim>\<open>TypeError\<close> of reading a
  property of \<^verbatim>\<open>undefined\<close>.
\<close>

datatype error = SchemaNotFound string | EmptyContents string | TypeError

text \<open>
  What a call does: it throws, leaving the instance as it is at the throw, or returns a
  result and the instance. \<open>OutOfFuel\<close> is a loop or recursion cut off by the fuel
  argument of the model; a call that is \<open>OutOfFuel\<close> for every fuel never returns.
\<close>

datatype 'a outcome = OutOfFuel | Threw error world_seedr | Returned 'a world_seedr

section \<open>Generated commands\<close>



section \<open>Randomization utilities\<close>

text \<open>\<^verbatim>\<open>this.random()\<close>.\<close>

definition callRandom :: "world_seedr \<Rightarrow> real \<times> world_seedr" where
  "callRandom s = (random s (drawn s), s\<lparr>drawn := Suc (drawn s)\<rparr>)"

definition randomPercentage :: "world_seedr \<Rightarrow> real \<times> world_seedr" where
  "randomPercentage s =
     (case callRandom s of (r, s') \<Rightarrow> (of_int \<lfloor>r * 100\<rfloor> + 1, s'))"

definition randomBetween :: "real \<Rightarrow> real \<Rightarrow> world_seedr \<Rightarrow> real \<times> world_seedr" where
  "randomBetween mn mx s =
     (case callRandom s of (r, s') \<Rightarrow> (of_int \<lfloor>r * (1 + mx - mn)\<rfloor> + mn, s'))"

text \<open>
  The \<^verbatim>\<open>for\<close> loop of \<^verbatim>\<open>chooseAmong\<close>. The running sum (\<^verbatim>\<open>sum\<close> in the source) is \<open>None\<close> once a
  missing \<^verbatim>\<open>percent\<close> has made it NaN, and NaN is \<open>\<ge>\<close> nothing. Running off the end
  of the list returns \<^verbatim>\<open>undefined\<close>.
\<close>

fun chooseAmongLoop :: "real \<Rightarrow> real option \<Rightarrow> 'a weighted_scheme list \<Rightarrow> 'a weighted_scheme option" where
  "chooseAmongLoop choice sumSoFar [] = None"
| "chooseAmongLoop choice sumSoFar (c # cs) =
     (let sumNext = (case (sumSoFar, percent c) of (Some a, Some b) \<Rightarrow> Some (a + b) | _ \<Rightarrow> None)
      in if (case sumNext of Some v \<Rightarrow> v \<ge> choice | None \<Rightarrow> False) then Some c
         else chooseAmongLoop choice sumNext cs)"

definition chooseAmong :: "'a weighted_scheme list \<Rightarrow> world_seedr \<Rightarrow> 'a weighted_scheme option \<times> world_seedr" where
  "chooseAmong choices s =
     (case choices of
        [] \<Rightarrow> (None, s)
      | [c] \<Rightarrow> (Some c, s)
      | _ \<Rightarrow> (case randomPercentage s of (choice, s') \<Rightarrow>
                (chooseAmongLoop choice (Some 0) choices, s')))"

definition doesChoiceFit :: "'a sized_scheme \<Rightarrow> real \<Rightarrow> real \<Rightarrow> bool" where
  "doesChoiceFit choice w h \<longleftrightarrow> width choice \<le> w \<and> height choice \<le> h"

definition choiceFitsPosition :: "'a sized_scheme \<Rightarrow> position \<Rightarrow> bool" where
  "choiceFitsPosition choice p =
     doesChoiceFit choice (right p - left p) (top' p - bottom p)"

text \<open>A child whose title names no schema makes \<^verbatim>\<open>doesChoiceFit\<close> read \<^verbatim>\<open>undefined.width\<close>.\<close>

fun filterFitting :: "(string \<Rightarrow> possibility option) \<Rightarrow> real \<Rightarrow> real \<Rightarrow> possibility_child list
    \<Rightarrow> possibility_child list option" where
  "filterFitting reg w h [] = Some []"
| "filterFitting reg w h (c # cs) =
     (case reg (title c) of
        None \<Rightarrow> None
      | Some schema \<Rightarrow>
          (case filterFitting reg w h cs of
             None \<Rightarrow> None
           | Some rest \<Rightarrow> Some (if doesChoiceFit schema w h then c # rest else rest)))"

definition chooseAmongPosition :: "possibility_child list \<Rightarrow> position \<Rightarrow> world_seedr
    \<Rightarrow> possibility_child option outcome" where
  "chooseAmongPosition choices p s =
     (case filterFitting (possibilities s) (right p - left p) (top' p - bottom p) choices of
        None \<Rightarrow> Threw TypeError s
      | Some fitting \<Rightarrow> (case chooseAmong fitting s of (c, s') \<Rightarrow> Returned c s'))"

section \<open>Sequencing\<close>

text \<open>
  Statement after statement: the second runs on the result and the instance the first
  returns; a throw, or a cut-off, of the first is the outcome of both.
\<close>

definition andThen :: "'a outcome \<Rightarrow> ('a \<Rightarrow> world_seedr \<Rightarrow> 'b outcome) \<Rightarrow> 'b outcome" where
  "andThen m f = (case m of OutOfFuel \<Rightarrow> OutOfFuel | Threw e s \<Rightarrow> Threw e s | Returned v s \<Rightarrow> f v s)"

section \<open>Position manipulation utilities\<close>

definition objectCopy :: "'a \<Rightarrow> 'a" where
  "objectCopy original = original"

text \<open>
  \<^verbatim>\<open>objectMerge(schema, position)\<close>, the one use of \<^verbatim>\<open>objectMerge\<close>: the schema's
  properties (\<^verbatim>\<open>width\<close>, \<^verbatim>\<open>height\<close>) win, the position gives the edges.
\<close>

definition objectMerge :: "possibility \<Rightarrow> position \<Rightarrow> position" where
  "objectMerge primary secondary =
     (objectCopy secondary)\<lparr>width := width primary, height := height primary\<rparr>"

definition positionIsNotEmpty :: "position \<Rightarrow> string \<Rightarrow> bool" where
  "positionIsNotEmpty p d =
     (if d = ''right'' \<or> d = ''left'' then left p < right p else top' p > bottom p)"

text \<open>\<^verbatim>\<open>spacing.units || 1\<close>: a missing or zero \<^verbatim>\<open>units\<close> is 1.\<close>

definition parseSpacingObject :: "spacing_value \<Rightarrow> world_seedr \<Rightarrow> real \<times> world_seedr" where
  "parseSpacingObject sp s =
     (case sp of
        ValueNumber n \<Rightarrow> (n, s)
      | ValueObject ob \<Rightarrow>
          (let u = (case units ob of None \<Rightarrow> 1 | Some v \<Rightarrow> if v = 0 then 1 else v)
           in case randomBetween (min' ob / u) (max' ob / u) s of
                (r, s') \<Rightarrow> (r * u, s')))"

text \<open>
  \<^verbatim>\<open>parseSpacing\<close>. \<^verbatim>\<open>!spacing\<close> holds of \<^verbatim>\<open>undefined\<close> and of 0. An empty array
  throws at \<^verbatim>\<open>spacing[0].constructor\<close>, and so does \<^verbatim>\<open>chooseAmong(spacing).value\<close>
  when nothing is chosen.
\<close>

definition parseSpacing :: "spacing \<Rightarrow> world_seedr \<Rightarrow> real outcome" where
  "parseSpacing sp s =
     (case sp of
        Undefined \<Rightarrow> Returned 0 s
      | Number n \<Rightarrow> if n = 0 then Returned 0 s else Returned n s
      | MinMax a b \<Rightarrow>
          (case randomBetween a b s of (r, s') \<Rightarrow>
             (case parseSpacingObject (ValueNumber r) s' of (v, s'') \<Rightarrow> Returned v s''))
      | Choices cs \<Rightarrow>
          (if cs = [] then Threw TypeError s
           else case chooseAmong cs s of
                  (None, s') \<Rightarrow> Threw TypeError s'
                | (Some c, s') \<Rightarrow>
                    (case parseSpacingObject (value' c) s' of (v, s'') \<Rightarrow> Returned v s''))
      | Object ob \<Rightarrow>
          (case parseSpacingObject (ValueObject ob) s of (v, s') \<Rightarrow> Returned v s'))"

definition shrinkPositionByChild :: "position \<Rightarrow> choice \<Rightarrow> string \<Rightarrow> spacing \<Rightarrow> world_seedr
    \<Rightarrow> position outcome" where
  "shrinkPositionByChild p child d sp s =
     (if d = ''top'' then
        andThen (parseSpacing sp s) (\<lambda>v s'. Returned (p\<lparr>bottom := top' (box child) + v\<rparr>) s')
      else if d = ''right'' then
        andThen (parseSpacing sp s) (\<lambda>v s'. Returned (p\<lparr>left := right (box child) + v\<rparr>) s')
      else if d = ''bottom'' then
        andThen (parseSpacing sp s) (\<lambda>v s'. Returned (p\<lparr>top' := bottom (box child) - v\<rparr>) s')
      else if d = ''left'' then
        andThen (parseSpacing sp s) (\<lambda>v s'. Returned (p\<lparr>right := left (box child) - v\<rparr>) s')
      else Returned p s)"

definition movePositionBySpacing :: "position \<Rightarrow> string \<Rightarrow> spacing \<Rightarrow> world_seedr
    \<Rightarrow> position outcome" where
  "movePositionBySpacing p d sp s =
     andThen (parseSpacing sp s)
       (\<lambda>space s'.
          Returned
            (if d = ''top'' then p\<lparr>top' := top' p + space, bottom := bottom p + space\<rparr>
             else if d = ''right'' then p\<lparr>left := left p + space, right := right p + space\<rparr>
             else if d = ''bottom'' then p\<lparr>top' := top' p - space, bottom := bottom p - space\<rparr>
             else if d = ''left'' then p\<lparr>left := left p - space, right := right p - space\<rparr>
             else p) s')"

text \<open>
  \<^verbatim>\<open>getPositionExtremes\<close>. \<open>None\<close> for the children is the \<^verbatim>\<open>undefined\<close> a mode
  may return. Every node the parsers build has own properties, so the source's test
  \<^verbatim>\<open>!Object.keys(child).length\<close> never holds and has no branch here.
\<close>

fun positionExtremesLoop :: "generated \<Rightarrow> choice list \<Rightarrow> generated" where
  "positionExtremesLoop g [] = g"
| "positionExtremesLoop g (child # rest) =
     positionExtremesLoop
       (Generated (max (gtop g) (top' (box child))) (max (gright g) (right (box child)))
          (min (gbottom g) (bottom (box child))) (min (gleft g) (left (box child)))
          (gchildren g)) rest"

definition getPositionExtremes :: "choice list option \<Rightarrow> generated option" where
  "getPositionExtremes cs =
     (case cs of
        None \<Rightarrow> None
      | Some [] \<Rightarrow> None
      | Some (child # rest) \<Rightarrow>
          Some (positionExtremesLoop
            (Generated (top' (box child)) (right (box child)) (bottom (box child))
               (left (box child)) (child # rest)) rest))"

section \<open>Choice parsing\<close>

text \<open>Property assignment \<^verbatim>\<open>object[key] = v\<close>: in place when the key exists, else appended.\<close>

fun setProperty :: "string \<Rightarrow> jsval \<Rightarrow> jsobject \<Rightarrow> jsobject" where
  "setProperty k v [] = [(k, v)]"
| "setProperty k v ((k', v') # rest) =
     (if k = k' then (k, v) # rest else (k', v') # setProperty k v rest)"

text \<open>
  \<^verbatim>\<open>choice.arguments\<close> taken as it is (what \<^verbatim>\<open>parseChoiceFinal\<close> does, and
  \<^verbatim>\<open>parseChoice\<close> when it is no array): the same object, not a copy.
\<close>

definition argumentsVerbatim :: "child_arguments \<Rightarrow> object_ref option" where
  "argumentsVerbatim a =
     (case a of
        NoArguments \<Rightarrow> None
      | Literal r \<Rightarrow> Some (Shared r)
      | Alternatives r alts \<Rightarrow> Some (Shared r))"

text \<open>
  \<^verbatim>\<open>if (!output.arguments) { output.arguments = {}; }\<close>, and the assignment
  \<^verbatim>\<open>output.arguments[k] = v\<close>: into the store when the object is shared.
\<close>

definition ensureArguments :: "object_ref option \<Rightarrow> object_ref" where
  "ensureArguments args = (case args of None \<Rightarrow> Own [] | Some r \<Rightarrow> r)"

definition writeProperty :: "nat \<Rightarrow> string \<Rightarrow> jsval \<Rightarrow> world_seedr \<Rightarrow> world_seedr" where
  "writeProperty a k v s = s\<lparr>objects := (objects s)(a := setProperty k v (objects s a))\<rparr>"

definition setArgument :: "string \<Rightarrow> jsval \<Rightarrow> object_ref \<Rightarrow> world_seedr \<Rightarrow> object_ref \<times> world_seedr" where
  "setArgument k v r s =
     (case r of
        Own ob \<Rightarrow> (Own (setProperty k v ob), s)
      | Shared a \<Rightarrow> (Shared a, writeProperty a k v s))"

text \<open>
  \<^verbatim>\<open>choice[i]\<close> for a property name \<open>i\<close>; \<^verbatim>\<open>choice["arguments"]\<close> is the
  object itself.
\<close>

definition choiceProperty :: "possibility_child \<Rightarrow> string \<Rightarrow> jsval" where
  "choiceProperty choice i =
     (if i = ''title'' then JString (title choice)
      else if i = ''type'' then JString (type choice)
      else if i = ''source'' then (case source choice of None \<Rightarrow> JUndefined | Some n \<Rightarrow> JString n)
      else if i = ''percent'' then (case percent choice of None \<Rightarrow> JUndefined | Some n \<Rightarrow> JNumber n)
      else if i = ''sizing'' then
        (case sizing choice of
           None \<Rightarrow> JUndefined
         | Some z \<Rightarrow>
             JObject ((case sizingWidth z of None \<Rightarrow> [] | Some v \<Rightarrow> [(''width'', JNumber v)]) @
                      (case sizingHeight z of None \<Rightarrow> [] | Some v \<Rightarrow> [(''height'', JNumber v)])))
      else if i = ''arguments'' then
        (case arguments choice of
           NoArguments \<Rightarrow> JUndefined
         | Literal r \<Rightarrow> JRef r
         | Alternatives r alts \<Rightarrow> JRef r)
      else if i = ''stretch'' then
        (case stretch choice of
           None \<Rightarrow> JUndefined
         | Some f \<Rightarrow>
             JObject [(''width'', JBoolean (stretchWidth f)), (''height'', JBoolean (stretchHeight f))])
      else (case map_of (extra choice) i of None \<Rightarrow> JUndefined | Some v \<Rightarrow> v))"

text \<open>
  \<^verbatim>\<open>copySchemaArguments\<close>, on the \<^verbatim>\<open>contents\<close> of the schema (the callers have
  thrown already when the schema or its \<^verbatim>\<open>contents\<close> is missing), with its loop
  over the pairs of the \<^verbatim>\<open>argumentMap\<close>.
\<close>

fun copyArgumentsLoop :: "possibility_child \<Rightarrow> (string \<times> string) list \<Rightarrow> object_ref \<Rightarrow> world_seedr
    \<Rightarrow> object_ref \<times> world_seedr" where
  "copyArgumentsLoop choice [] r s = (r, s)"
| "copyArgumentsLoop choice ((i, k) # rest) r s =
     (case setArgument k (choiceProperty choice i) r s of
        (r', s') \<Rightarrow> copyArgumentsLoop choice rest r' s')"

definition copySchemaArguments :: "possibility_contents \<Rightarrow> possibility_child \<Rightarrow> object_ref option
    \<Rightarrow> world_seedr \<Rightarrow> object_ref option \<times> world_seedr" where
  "copySchemaArguments c choice args s =
     (case argumentMap c of
        None \<Rightarrow> (args, s)
      | Some m \<Rightarrow>
          (case copyArgumentsLoop choice m (ensureArguments args) s of
             (r, s') \<Rightarrow> (Some r, s')))"

text \<open>
  \<^verbatim>\<open>ensureSizingOnChoice\<close>: the width and the height of the output; \<open>None\<close> is the
  \<^verbatim>\<open>TypeError\<close> of reading \<^verbatim>\<open>schema[name]\<close> of a missing schema.
\<close>

definition ensureSizingOnChoice :: "possibility_child \<Rightarrow> possibility option \<Rightarrow> (real \<times> real) option" where
  "ensureSizingOnChoice choice schema =
     (let w = (case sizing choice of
                 None \<Rightarrow> map_option width schema
               | Some z \<Rightarrow> (case sizingWidth z of Some v \<Rightarrow> Some v | None \<Rightarrow> map_option width schema));
          h = (case sizing choice of
                 None \<Rightarrow> map_option height schema
               | Some z \<Rightarrow> (case sizingHeight z of Some v \<Rightarrow> Some v | None \<Rightarrow> map_option height schema))
      in case (w, h) of (Some w', Some h') \<Rightarrow> Some (w', h') | _ \<Rightarrow> None)"

definition ensureDirectionBoundsOnChoice :: "position \<Rightarrow> position \<Rightarrow> position" where
  "ensureDirectionBoundsOnChoice output p =
     output\<lparr>top' := top' p, right := right p, bottom := bottom p, left := left p\<rparr>"

text \<open>
  \<^verbatim>\<open>output[direction] = output[directionOpposites[direction]] +
  output[directionSizing[direction]]\<close>. For a direction that is none of the four
  names the source writes NaN under that name, which nothing reads, as long as the
  name is not a property of the node.
\<close>

definition setLeadingEdge :: "position \<Rightarrow> string \<Rightarrow> position" where
  "setLeadingEdge output d =
     (if d = ''top'' then output\<lparr>top' := bottom output + height output\<rparr>
      else if d = ''right'' then output\<lparr>right := left output + width output\<rparr>
      else if d = ''bottom'' then output\<lparr>bottom := top' output + height output\<rparr>
      else if d = ''left'' then output\<lparr>left := right output + width output\<rparr>
      else output)"

text \<open>\<^verbatim>\<open>switch (schema.contents.snap)\<close>.\<close>

definition applySnap :: "position \<Rightarrow> string \<Rightarrow> position" where
  "applySnap output sn =
     (if sn = ''top'' then output\<lparr>bottom := top' output - height output\<rparr>
      else if sn = ''right'' then output\<lparr>left := right output - width output\<rparr>
      else if sn = ''bottom'' then output\<lparr>top' := bottom output + height output\<rparr>
      else if sn = ''left'' then output\<lparr>right := left output + width output\<rparr>
      else output)"

text \<open>
  \<^verbatim>\<open>if (choice.stretch) { ... }\<close>: the box and the arguments of the output, and
  the instance, whose store the two assignments may write.
\<close>

definition applyStretch :: "possibility_child \<Rightarrow> position \<Rightarrow> position \<times> object_ref option
    \<Rightarrow> world_seedr \<Rightarrow> (position \<times> object_ref option) \<times> world_seedr" where
  "applyStretch choice p out s =
     (case stretch choice of
        None \<Rightarrow> (out, s)
      | Some f \<Rightarrow>
          (let b = fst out;
               r = ensureArguments (snd out);
               (b1, r1, s1) =
                 (if stretchWidth f
                  then (b\<lparr>left := left p, right := right p, width := right p - left p\<rparr>,
                        setArgument ''width'' (JNumber (right p - left p)) r s)
                  else (b, r, s));
               (b2, r2, s2) =
                 (if stretchHeight f
                  then (b1\<lparr>top' := top' p, bottom := bottom p, height := top' p - bottom p\<rparr>,
                        setArgument ''height'' (JNumber (top' p - bottom p)) r1 s1)
                  else (b1, r1, s1))
           in ((b2, Some r2), s2)))"

text \<open>
  \<^verbatim>\<open>parseChoice\<close>, in the order the source evaluates: the \<^verbatim>\<open>arguments\<close> of the
  output (a draw when they are weighted alternatives; \<^verbatim>\<open>.values\<close> of nothing
  chosen throws), the sizes, the edges, the leading edge, the snap (which throws when
  the title names no schema or a schema without \<^verbatim>\<open>contents\<close>), the stretch, the
  argument map. The \<^verbatim>\<open>arguments\<close> of the output are the object of the child
  reference, or the \<^verbatim>\<open>.values\<close> object of the alternative chosen.
\<close>

definition parseChoice :: "possibility_child \<Rightarrow> position \<Rightarrow> string \<Rightarrow> world_seedr \<Rightarrow> choice outcome" where
  "parseChoice choice p d s =
     andThen
       (case arguments choice of
          Alternatives r alts \<Rightarrow>
            (case chooseAmong alts s of
               (None, s') \<Rightarrow> Threw TypeError s'
             | (Some a, s') \<Rightarrow> Returned (map_option Shared (values' a)) s')
        | a \<Rightarrow> Returned (argumentsVerbatim a) s)
       (\<lambda>args s'.
          case ensureSizingOnChoice choice (possibilities s' (title choice)) of
            None \<Rightarrow> Threw TypeError s'
          | Some (w, h) \<Rightarrow>
              (case possibilities s' (title choice) of
                 None \<Rightarrow> Threw TypeError s'
               | Some schema \<Rightarrow>
                   (case contents schema of
                      None \<Rightarrow> Threw TypeError s'
                    | Some c \<Rightarrow>
                        (let sized = ensureDirectionBoundsOnChoice (p\<lparr>width := w, height := h\<rparr>) p;
                             snapped = applySnap (setLeadingEdge sized d) (snap c)
                         in case applyStretch choice p (snapped, args) s' of
                              ((b, args1), s1) \<Rightarrow>
                                (case copySchemaArguments c choice args1 s1 of
                                   (args2, s2) \<Rightarrow>
                                     Returned (Choice (title choice) (type choice) args2 b None) s2)))))"

text \<open>
  \<^verbatim>\<open>parseChoiceFinal\<close>: the schema is the one \<^verbatim>\<open>choice.source\<close> names; a missing
  \<^verbatim>\<open>source\<close>, like a name of no schema, makes \<^verbatim>\<open>schema.width\<close> throw, and a
  schema without \<^verbatim>\<open>contents\<close> makes \<^verbatim>\<open>copySchemaArguments\<close> throw.
\<close>

definition parseChoiceFinal :: "possibility_contents \<Rightarrow> possibility_child \<Rightarrow> position \<Rightarrow> string
    \<Rightarrow> world_seedr \<Rightarrow> choice outcome" where
  "parseChoiceFinal parent choice p d s =
     (case (case source choice of None \<Rightarrow> None | Some n \<Rightarrow> possibilities s n) of
        None \<Rightarrow> Threw TypeError s
      | Some schema \<Rightarrow>
          (case contents schema of
             None \<Rightarrow> Threw TypeError s
           | Some c \<Rightarrow>
               (case copySchemaArguments c choice (argumentsVerbatim (arguments choice)) s of
                  (args, s') \<Rightarrow>
                    Returned
                      (Choice (title choice) ''Known'' args
                         (p\<lparr>width := width schema, height := height schema\<rparr>) None) s')))"

definition generateChild :: "possibility_contents \<Rightarrow> position \<Rightarrow> string \<Rightarrow> world_seedr
    \<Rightarrow> choice option outcome" where
  "generateChild c p d s =
     andThen (chooseAmongPosition (children c) p s)
       (\<lambda>choice s'.
          case choice of
            None \<Rightarrow> Returned None s'
          | Some ch \<Rightarrow> andThen (parseChoice ch p d s') (\<lambda>output s''. Returned (Some output) s''))"

section \<open>Generation\<close>

text \<open>
  The \<^verbatim>\<open>while\<close> loop of \<^verbatim>\<open>generateChildrenRandom\<close>; \<open>placed\<close> is its
  \<^verbatim>\<open>children\<close> array. Each turn of the loop takes one unit of fuel. A result
  \<open>None\<close> is the bare \<^verbatim>\<open>return\<close> taken when the limit is exceeded;
  \<^verbatim>\<open>contents.limit && ...\<close> takes a limit of 0 for no limit.
\<close>

fun generateChildrenRandomLoop :: "nat \<Rightarrow> possibility_contents \<Rightarrow> position \<Rightarrow> string \<Rightarrow> spacing
    \<Rightarrow> choice list \<Rightarrow> world_seedr \<Rightarrow> choice list option outcome" where
  "generateChildrenRandomLoop fuel c p d sp placed s =
     (if positionIsNotEmpty p d then
        (case fuel of
           0 \<Rightarrow> OutOfFuel
         | Suc n \<Rightarrow>
             andThen (generateChild c p d s)
               (\<lambda>child s1.
                  case child of
                    None \<Rightarrow> Returned (Some placed) s1
                  | Some ch \<Rightarrow>
                      andThen (shrinkPositionByChild p ch d sp s1)
                        (\<lambda>p' s2.
                           if (case limit c of
                                 None \<Rightarrow> False
                               | Some l \<Rightarrow> l \<noteq> 0 \<and> real (length (placed @ [ch])) > l)
                           then Returned None s2
                           else generateChildrenRandomLoop n c p' d sp (placed @ [ch]) s2)))
      else Returned (Some placed) s)"

definition generateChildrenRandom :: "nat \<Rightarrow> possibility_contents \<Rightarrow> position \<Rightarrow> string \<Rightarrow> spacing
    \<Rightarrow> world_seedr \<Rightarrow> choice list option outcome" where
  "generateChildrenRandom fuel c p d sp s = generateChildrenRandomLoop fuel c p d sp [] s"

text \<open>
  \<^verbatim>\<open>generateChildrenMultiple\<close>: the \<^verbatim>\<open>map\<close> over \<^verbatim>\<open>contents.children\<close>, with the
  position it moves. \<^verbatim>\<open>if (direction)\<close> fails for the missing direction only.
\<close>

fun generateChildrenMultipleMap :: "possibility_child list \<Rightarrow> position \<Rightarrow> string \<Rightarrow> spacing
    \<Rightarrow> world_seedr \<Rightarrow> choice list outcome" where
  "generateChildrenMultipleMap [] p d sp s = Returned [] s"
| "generateChildrenMultipleMap (choice # rest) p d sp s =
     andThen (parseChoice choice (objectCopy p) d s)
       (\<lambda>output s1.
          andThen (if d \<noteq> [] then movePositionBySpacing p d sp s1 else Returned p s1)
            (\<lambda>p' s2.
               andThen (generateChildrenMultipleMap rest p' d sp s2)
                 (\<lambda>outputs s3. Returned (output # outputs) s3)))"

definition generateChildrenMultiple :: "possibility_contents \<Rightarrow> position \<Rightarrow> string \<Rightarrow> spacing
    \<Rightarrow> world_seedr \<Rightarrow> choice list outcome" where
  "generateChildrenMultiple c p d sp s = generateChildrenMultipleMap (children c) p d sp s"

text \<open>\<^verbatim>\<open>output.contents = ...\<close> on a node.\<close>

definition setContents :: "choice \<Rightarrow> generated option \<Rightarrow> choice" where
  "setContents output g =
     Choice (ctitle output) (ctype output) (carguments output) (box output) g"

text \<open>\<^verbatim>\<open>contents.spacing || 0\<close>.\<close>

definition spacingOrZero :: "spacing \<Rightarrow> spacing" where
  "spacingOrZero sp = (case sp of Undefined \<Rightarrow> Number 0 | _ \<Rightarrow> sp)"

text \<open>
  \<^verbatim>\<open>generate\<close>, \<^verbatim>\<open>generateChildren\<close> and the two modes that call \<^verbatim>\<open>generate\<close>
  again. \<open>generateChildrenCertainMap\<close> is the \<^verbatim>\<open>map\<close> of
  \<^verbatim>\<open>generateChildrenCertain\<close> over the children still to come (no output is
  \<^verbatim>\<open>undefined\<close>, so its \<^verbatim>\<open>filter\<close> keeps all); \<open>generateChildrenRepeatLoop\<close> is
  the \<^verbatim>\<open>while\<close> loop of \<^verbatim>\<open>generateChildrenRepeat\<close>, with its variables
  \<^verbatim>\<open>i\<close> and \<^verbatim>\<open>children\<close> (\<open>placed\<close>); it returns them, and the position, as they
  are when the loop is left. Fuel: one unit for each turn of the \<^verbatim>\<open>while\<close> loop and
  for each nested call of \<^verbatim>\<open>generate\<close>. \<^verbatim>\<open>choices[i]\<close> of an empty list is
  \<^verbatim>\<open>undefined\<close>, and \<^verbatim>\<open>choice.type\<close> throws.
\<close>

function generate :: "nat \<Rightarrow> string \<Rightarrow> position \<Rightarrow> world_seedr \<Rightarrow> generated option outcome"
  and generateChildren :: "nat \<Rightarrow> possibility \<Rightarrow> position \<Rightarrow> string \<Rightarrow> world_seedr
    \<Rightarrow> generated option outcome"
  and generateChildrenCertainMap :: "nat \<Rightarrow> possibility_contents \<Rightarrow> possibility_child list
    \<Rightarrow> position \<Rightarrow> string \<Rightarrow> spacing \<Rightarrow> world_seedr \<Rightarrow> choice list outcome"
  and generateChildrenRepeatLoop :: "nat \<Rightarrow> possibility_contents \<Rightarrow> position \<Rightarrow> string \<Rightarrow> spacing
    \<Rightarrow> nat \<Rightarrow> choice list \<Rightarrow> world_seedr \<Rightarrow> (choice list \<times> position \<times> nat) outcome"
where
  "generate fuel name command s =
     (case possibilities s name of
        None \<Rightarrow> Threw (SchemaNotFound name) s
      | Some schema \<Rightarrow>
          (case contents schema of
             None \<Rightarrow> Threw (EmptyContents name) s
           | Some c \<Rightarrow> generateChildren fuel schema (objectCopy command) [] s))"
| "generateChildren fuel schema p d0 s =
     (case contents schema of
        None \<Rightarrow> Threw TypeError s
      | Some c \<Rightarrow>
          (let sp = spacingOrZero (spacing c);
               objectMerged = objectMerge schema p;
               d = (if direction c \<noteq> [] then direction c else d0)
           in andThen
                (if mode c = ''Random'' then generateChildrenRandom fuel c objectMerged d sp s
                 else if mode c = ''Certain'' then
                   andThen (generateChildrenCertainMap fuel c (children c) objectMerged d sp s)
                     (\<lambda>cs s'. Returned (Some cs) s')
                 else if mode c = ''Repeat'' then
                   andThen (generateChildrenRepeatLoop fuel c objectMerged d sp 0 [] s)
                     (\<lambda>r s'. Returned (Some (fst r)) s')
                 else if mode c = ''Multiple'' then
                   andThen (generateChildrenMultiple c objectMerged d sp s)
                     (\<lambda>cs s'. Returned (Some cs) s')
                 else Returned None s)
                (\<lambda>cs s'. Returned (getPositionExtremes cs) s')))"
| "generateChildrenCertainMap fuel c [] p d sp s = Returned [] s"
| "generateChildrenCertainMap fuel c (choice # rest) p d sp s =
     (if type choice = ''Final'' then
        andThen (parseChoiceFinal c choice p d s)
          (\<lambda>output s1.
             andThen (generateChildrenCertainMap fuel c rest p d sp s1)
               (\<lambda>outputs s2. Returned (output # outputs) s2))
      else
        andThen (parseChoice choice p d s)
          (\<lambda>output s1.
             andThen
               (if ctype output \<noteq> ''Known'' then
                  (case fuel of
                     0 \<Rightarrow> OutOfFuel
                   | Suc n \<Rightarrow>
                       andThen (generate n (ctitle output) p s1)
                         (\<lambda>g s2. Returned (setContents output g) s2))
                else Returned output s1)
               (\<lambda>output' s2.
                  andThen (shrinkPositionByChild p output' d sp s2)
                    (\<lambda>p' s3.
                       andThen (generateChildrenCertainMap fuel c rest p' d sp s3)
                         (\<lambda>outputs s4. Returned (output' # outputs) s4)))))"
| "generateChildrenRepeatLoop fuel c p d sp i placed s =
     (if positionIsNotEmpty p d then
        (case fuel of
           0 \<Rightarrow> OutOfFuel
         | Suc n \<Rightarrow>
             (if i < length (children c) then
                (let choice = children c ! i in
                 andThen
                   (if type choice = ''Final'' then parseChoiceFinal c choice p d s
                    else
                      andThen (parseChoice choice p d s)
                        (\<lambda>child s1.
                           if ctype child \<noteq> ''Known'' then
                             andThen (generate n (ctitle child) p s1)
                               (\<lambda>g s2. Returned (setContents child g) s2)
                           else Returned child s1))
                   (\<lambda>child s2.
                      if choiceFitsPosition (box child) p then
                        andThen (shrinkPositionByChild p child d sp s2)
                          (\<lambda>p' s3.
                             generateChildrenRepeatLoop n c p' d sp
                               (if Suc i \<ge> length (children c) then 0 else Suc i)
                               (placed @ [child]) s3)
                      else Returned (placed, p, i) s2))
              else Threw TypeError s))
      else Returned (placed, p, i) s)"
  by pat_completeness auto

termination
  apply (relation "measures [
      (\<lambda>x. case x of Inl (Inl (fuel, _)) \<Rightarrow> fuel | Inl (Inr (fuel, _)) \<Rightarrow> fuel
               | Inr (Inl (fuel, _)) \<Rightarrow> fuel | Inr (Inr (fuel, _)) \<Rightarrow> fuel),
      (\<lambda>x. case x of Inl (Inl _) \<Rightarrow> 3 | Inl (Inr _) \<Rightarrow> 2
               | Inr (Inl _) \<Rightarrow> 1 | Inr (Inr _) \<Rightarrow> (0::nat)),
      (\<lambda>x. case x of Inr (Inl (fuel, c, choices, _)) \<Rightarrow> length choices | _ \<Rightarrow> 0)]")
  apply simp_all
  done

definition generateChildrenCertain :: "nat \<Rightarrow> possibility_contents \<Rightarrow> position \<Rightarrow> string \<Rightarrow> spacing
    \<Rightarrow> world_seedr \<Rightarrow> choice list outcome" where
  "generateChildrenCertain fuel c p d sp s = generateChildrenCertainMap fuel c (children c) p d sp s"

definition generateChildrenRepeat :: "nat \<Rightarrow> possibility_contents \<Rightarrow> position \<Rightarrow> string \<Rightarrow> spacing
    \<Rightarrow> world_seedr \<Rightarrow> choice list outcome" where
  "generateChildrenRepeat fuel c p d sp s =
     andThen (generateChildrenRepeatLoop fuel c p d sp 0 [] s) (\<lambda>r s'. Returned (fst r) s')"

text \<open>
  \<^verbatim>\<open>generateFull\<close> and its \<^verbatim>\<open>for\<close> loop over \<^verbatim>\<open>generated.children\<close>. The node
  is the command given to \<^verbatim>\<open>generate\<close>, which reads its edges. Each nested call
  of \<^verbatim>\<open>generateFull\<close> takes one unit of fuel.
\<close>

function generateFull :: "nat \<Rightarrow> choice \<Rightarrow> world_seedr \<Rightarrow> unit outcome"
  and generateFullLoop :: "nat \<Rightarrow> choice list \<Rightarrow> world_seedr \<Rightarrow> unit outcome"
where
  "generateFull fuel schema s =
     andThen (generate fuel (ctitle schema) (box schema) s)
       (\<lambda>g s'. case g of
                  None \<Rightarrow> Returned () s'
                | Some g' \<Rightarrow> generateFullLoop fuel (gchildren g') s')"
| "generateFullLoop fuel [] s = Returned () s"
| "generateFullLoop fuel (child # rest) s =
     (if ctype child = ''Known'' then
        generateFullLoop fuel rest (s\<lparr>generatedCommands := generatedCommands s @ [child]\<rparr>)
      else if ctype child = ''Random'' then
        (case fuel of
           0 \<Rightarrow> OutOfFuel
         | Suc n \<Rightarrow> andThen (generateFull n child s) (\<lambda>u s'. generateFullLoop fuel rest s'))
      else generateFullLoop fuel rest s)"
  by pat_completeness auto
termination
  apply (relation "measures [
      (\<lambda>x. case x of Inl (fuel, _) \<Rightarrow> fuel | Inr (fuel, _) \<Rightarrow> fuel),
      (\<lambda>x. case x of Inl _ \<Rightarrow> Suc 0 | Inr _ \<Rightarrow> 0),
      (\<lambda>x. case x of Inl _ \<Rightarrow> 0 | Inr (fuel, cs, _) \<Rightarrow> length cs)]")
  apply simp_all
  done

section \<open>Notions the properties are stated with\<close>



text \<open>
  An instance for the examples: a registry, a random source that returns \<open>r\<close> at
  every call, no draw made, nothing accumulated, every object of the store empty.
\<close>

definition exampleSeedr :: "(string \<Rightarrow> possibility option) \<Rightarrow> real \<Rightarrow> world_seedr" where
  "exampleSeedr reg r =
     \<lparr>possibilities = reg, objects = (\<lambda>a. []), random = (\<lambda>i. r), drawn = 0,
      onPlacementCalls = [], generatedCommands = []\<rparr>"

text \<open>Example data: a contents record with nothing set, a box, two child references.\<close>

definition emptyContents :: possibility_contents where
  "emptyContents = \<lparr>direction = [], mode = [], snap = [], children = [], spacing = Undefined,
     limit = None, argumentMap = None\<rparr>"

definition exampleBox :: position where
  "exampleBox = \<lparr>width = 0, height = 0, top' = 10, right = 100, bottom = 0, left = 0\<rparr>"

definition finalChild :: "string \<Rightarrow> string \<Rightarrow> possibility_child" where
  "finalChild name src = \<lparr>percent = None, title = name, type = ''Final'', source = Some src,
     sizing = None, arguments = NoArguments, stretch = None, extra = []\<rparr>"

definition typedChild :: "string \<Rightarrow> string \<Rightarrow> possibility_child" where
  "typedChild name ty = \<lparr>percent = None, title = name, type = ty, source = None,
     sizing = None, arguments = NoArguments, stretch = None, extra = []\<rparr>"

definition cannonRegistry :: "possibility_contents option \<Rightarrow> string \<Rightarrow> possibility option" where
  "cannonRegistry c n =
     (if n = ''Cannon'' then Some \<lparr>width = 8, height = 8, contents = c\<rparr> else None)"

text \<open>A row of two terminal children, 40 and 60 wide, placed rightwards.\<close>

definition rowRegistry :: "string \<Rightarrow> possibility option" where
  "rowRegistry n =
     (if n = ''Row'' then
        Some \<lparr>width = 100, height = 10,
              contents = Some (emptyContents\<lparr>mode := ''Certain'', direction := ''right'',
                children := [typedChild ''A'' ''Known'', typedChild ''B'' ''Known'']\<rparr>)\<rparr>
      else if n = ''A'' then Some \<lparr>width = 40, height = 10, contents = Some emptyContents\<rparr>
      else if n = ''B'' then Some \<lparr>width = 60, height = 10, contents = Some emptyContents\<rparr>
      else None)"

text \<open>
  \<open>drawsAndWrites s s'\<close>: the instance \<open>s'\<close> is \<open>s\<close> after some calls of the random
  source and some writes into the objects of the store, and nothing else has changed.
  \<open>confined s m\<close>: the outcome \<open>m\<close> of a call made on \<open>s\<close> leaves such an
  instance, when it leaves one.
\<close>

definition drawsAndWrites :: "world_seedr \<Rightarrow> world_seedr \<Rightarrow> bool" where
  "drawsAndWrites s s' \<longleftrightarrow> (\<exists>k h. s' = s\<lparr>drawn := drawn s + k, objects := h\<rparr>)"

definition confined :: "world_seedr \<Rightarrow> 'a outcome \<Rightarrow> bool" where
  "confined s m =
     (case m of OutOfFuel \<Rightarrow> True | Threw e s' \<Rightarrow> drawsAndWrites s s' | Returned v s' \<Rightarrow> drawsAndWrites s s')"

text \<open>The first node the row generates.\<close>

definition rowA :: choice where
  "rowA = Choice ''A'' ''Known'' None \<lparr>width = 40, height = 10, top' = 10, right = 40, bottom = 0, left = 0\<rparr> None"

text \<open>
  Tiles 30 wide, drawn at random (there is one to draw from) to fill a box rightwards,
  with the limit \<open>l\<close>; \<open>tileAt x\<close> is the tile placed at \<open>x\<close>.
\<close>

definition tileRegistry :: "string \<Rightarrow> possibility option" where
  "tileRegistry n = (if n = ''Tile'' then Some \<lparr>width = 30, height = 10, contents = Some emptyContents\<rparr> else None)"

definition tileContents :: "real option \<Rightarrow> possibility_contents" where
  "tileContents l = emptyContents\<lparr>mode := ''Random'', direction := ''right'',
     children := [typedChild ''Tile'' ''Known''], limit := l\<rparr>"

text \<open>
  \<open>placedInTurns n\<close>: the children placed by the first \<open>n\<close> turns of the
  \<^verbatim>\<open>while\<close> loop of \<^verbatim>\<open>generateChildrenRandom\<close> with the test of the limit left
  out: the same condition, the same call of \<^verbatim>\<open>generateChild\<close>, the same
  \<^verbatim>\<open>break\<close>, the same shrinking and pushing, stopped after \<open>n\<close> turns when the loop
  has not ended before. It counts the children as the loop places them, whether or not
  the loop without a limit would ever end.
\<close>

fun placedInTurns :: "nat \<Rightarrow> possibility_contents \<Rightarrow> position \<Rightarrow> string \<Rightarrow> spacing
    \<Rightarrow> choice list \<Rightarrow> world_seedr \<Rightarrow> choice list outcome" where
  "placedInTurns 0 c p d sp placed s = Returned placed s"
| "placedInTurns (Suc n) c p d sp placed s =
     (if positionIsNotEmpty p d then
        andThen (generateChild c p d s)
          (\<lambda>child s1.
             case child of
               None \<Rightarrow> Returned placed s1
             | Some ch \<Rightarrow>
                 andThen (shrinkPositionByChild p ch d sp s1)
                   (\<lambda>p' s2. placedInTurns n c p' d sp (placed @ [ch]) s2))
      else Returned placed s)"

text \<open>Tiles of no width: the loop places them for ever at the same place.\<close>

definition thinRegistry :: "string \<Rightarrow> possibility option" where
  "thinRegistry n = (if n = ''Tile'' then Some \<lparr>width = 0, height = 10, contents = Some emptyContents\<rparr> else None)"

definition thinTile :: choice where
  "thinTile = Choice ''Tile'' ''Known'' None
     \<lparr>width = 0, height = 10, top' = 10, right = 0, bottom = 0, left = 0\<rparr> None"

definition tileAt :: "real \<Rightarrow> choice" where
  "tileAt x = Choice ''Tile'' ''Known'' None
     \<lparr>width = 30, height = 10, top' = 10, right = x + 30, bottom = 0, left = x\<rparr> None"

text \<open>
  \<open>drawRelation R\<close>: instances related by \<open>R\<close> have the same registry, their
  random sources return the same number at the next call and are related again after
  it, and they are related again after the same assignment to a property of an object
  of the store. \<open>relOutcome R a b\<close>: the outcomes \<open>a\<close> and \<open>b\<close> are of the same
  kind, with the same result or the same error, and leave instances related by \<open>R\<close>.
\<close>

definition drawRelation :: "(world_seedr \<Rightarrow> world_seedr \<Rightarrow> bool) \<Rightarrow> bool" where
  "drawRelation R \<longleftrightarrow>
     (\<forall>s t. R s t \<longrightarrow> possibilities s = possibilities t
        \<and> fst (callRandom s) = fst (callRandom t) \<and> R (snd (callRandom s)) (snd (callRandom t))
        \<and> (\<forall>a k v. R (writeProperty a k v s) (writeProperty a k v t)))"

definition relOutcome :: "(world_seedr \<Rightarrow> world_seedr \<Rightarrow> bool) \<Rightarrow> 'a outcome \<Rightarrow> 'a outcome \<Rightarrow> bool" where
  "relOutcome R a b =
     (case a of
        OutOfFuel \<Rightarrow> b = OutOfFuel
      | Threw e s \<Rightarrow> (\<exists>t. b = Threw e t \<and> R s t)
      | Returned v s \<Rightarrow> (\<exists>t. b = Returned v t \<and> R s t))"

text \<open>
  \<open>sameSource s t\<close>: the same registry, and the random sources return the same
  sequence of numbers from now on (whatever they returned before, and however many
  calls were made). Nothing is asked of the objects of the store, of the accumulators
  or of the records of the callback.

  \<open>applyWrites ws h\<close>: the store \<open>h\<close> after the assignments \<open>ws\<close>, each an
  address, a property name and a value, made in order.

  \<open>replayed s t s' t'\<close>: the instances \<open>s'\<close> and \<open>t'\<close> still have the same source;
  their stores are those of \<open>s\<close> and \<open>t\<close> after the same assignments; and their
  accumulators are those of \<open>s\<close> and \<open>t\<close> with the same commands appended.

  \<open>sameInputs s t\<close>: the same source, the same objects in the store and the same
  accumulator.
\<close>

definition sameSource :: "world_seedr \<Rightarrow> world_seedr \<Rightarrow> bool" where
  "sameSource s t \<longleftrightarrow>
     possibilities s = possibilities t \<and> (\<forall>i. random s (drawn s + i) = random t (drawn t + i))"

fun applyWrites :: "(nat \<times> string \<times> jsval) list \<Rightarrow> (nat \<Rightarrow> jsobject) \<Rightarrow> nat \<Rightarrow> jsobject" where
  "applyWrites [] h = h"
| "applyWrites ((a, k, v) # ws) h = applyWrites ws (h(a := setProperty k v (h a)))"

definition replayed :: "world_seedr \<Rightarrow> world_seedr \<Rightarrow> world_seedr \<Rightarrow> world_seedr \<Rightarrow> bool" where
  "replayed s t s' t' \<longleftrightarrow>
     sameSource s' t'
     \<and> (\<exists>ws. objects s' = applyWrites ws (objects s) \<and> objects t' = applyWrites ws (objects t))
     \<and> (\<exists>ks. generatedCommands s' = generatedCommands s @ ks
           \<and> generatedCommands t' = generatedCommands t @ ks)"

definition sameInputs :: "world_seedr \<Rightarrow> world_seedr \<Rightarrow> bool" where
  "sameInputs s t \<longleftrightarrow>
     sameSource s t \<and> objects s = objects t \<and> generatedCommands s = generatedCommands t"

text \<open>
  The walk of \<^verbatim>\<open>generateFull\<close> as the specification words it, with no accumulator:
  the nodes of type \<^verbatim>\<open>"Known"\<close> met in the expansion of a node, depth first. The
  children of the generated result are taken in order: a \<^verbatim>\<open>"Known"\<close> child is
  listed, a \<^verbatim>\<open>"Random"\<close> child is expanded in its turn and gives its own list, a
  child of any other type gives nothing.
\<close>

function knownDepthFirst :: "nat \<Rightarrow> choice \<Rightarrow> world_seedr \<Rightarrow> choice list outcome"
  and knownDepthFirstChildren :: "nat \<Rightarrow> choice list \<Rightarrow> world_seedr \<Rightarrow> choice list outcome"
where
  "knownDepthFirst fuel node s =
     andThen (generate fuel (ctitle node) (box node) s)
       (\<lambda>g s'. case g of
                  None \<Rightarrow> Returned [] s'
                | Some g' \<Rightarrow> knownDepthFirstChildren fuel (gchildren g') s')"
| "knownDepthFirstChildren fuel [] s = Returned [] s"
| "knownDepthFirstChildren fuel (child # rest) s =
     (if ctype child = ''Known'' then
        andThen (knownDepthFirstChildren fuel rest s) (\<lambda>ks s'. Returned (child # ks) s')
      else if ctype child = ''Random'' then
        (case fuel of
           0 \<Rightarrow> OutOfFuel
         | Suc n \<Rightarrow>
             andThen (knownDepthFirst n child s)
               (\<lambda>ks s'. andThen (knownDepthFirstChildren fuel rest s')
                  (\<lambda>ks' s''. Returned (ks @ ks') s'')))
      else knownDepthFirstChildren fuel rest s)"
  by pat_completeness auto
termination
  apply (relation "measures [
      (\<lambda>x. case x of Inl (fuel, _) \<Rightarrow> fuel | Inr (fuel, _) \<Rightarrow> fuel),
      (\<lambda>x. case x of Inl _ \<Rightarrow> Suc 0 | Inr _ \<Rightarrow> 0),
      (\<lambda>x. case x of Inl _ \<Rightarrow> 0 | Inr (fuel, cs, _) \<Rightarrow> length cs)]")
  apply simp_all
  done

text \<open>
  \<open>accumulates w g a\<close>: the run \<open>g\<close> of \<^verbatim>\<open>generateFull\<close>, started with the
  accumulator \<open>a\<close>, ends as the walk \<open>w\<close> does, and when the walk returns a list the
  accumulator is \<open>a\<close> followed by that list.
\<close>

definition accumulates :: "choice list outcome \<Rightarrow> unit outcome \<Rightarrow> choice list \<Rightarrow> bool" where
  "accumulates w g a =
     (case w of
        OutOfFuel \<Rightarrow> g = OutOfFuel
      | Threw e s1 \<Rightarrow> (\<exists>s2. g = Threw e s2)
      | Returned ks s1 \<Rightarrow> g = Returned () (s1\<lparr>generatedCommands := a @ ks\<rparr>))"

text \<open>A world: a terminal, the row to expand, and a child of a type the walk skips.\<close>

definition worldRegistry :: "string \<Rightarrow> possibility option" where
  "worldRegistry n =
     (if n = ''World'' then
        Some \<lparr>width = 200, height = 10,
              contents = Some (emptyContents\<lparr>mode := ''Certain'', direction := ''right'',
                children := [typedChild ''A'' ''Known'', typedChild ''Row'' ''Random'',
                             typedChild ''B'' ''Extra'']\<rparr>)\<rparr>
      else rowRegistry n)"

definition worldRoot :: choice where
  "worldRoot = Choice ''World'' ''Random'' None
     \<lparr>width = 200, height = 10, top' = 10, right = 200, bottom = 0, left = 0\<rparr> None"

definition nodeAt :: "string \<Rightarrow> real \<Rightarrow> real \<Rightarrow> choice" where
  "nodeAt name x w = Choice name ''Known'' None
     \<lparr>width = w, height = 10, top' = 10, right = x + w, bottom = 0, left = x\<rparr> None"

text \<open>
  A mix: the two terminals of the row, 40 and 60 wide, drawn at random with equal
  weights to fill a box rightwards.
\<close>

definition mixContents :: possibility_contents where
  "mixContents = emptyContents\<lparr>mode := ''Random'', direction := ''right'',
     children := [(typedChild ''A'' ''Known'')\<lparr>percent := Some 50\<rparr>,
                  (typedChild ''B'' ''Known'')\<lparr>percent := Some 50\<rparr>]\<rparr>"

definition mixRegistry :: "string \<Rightarrow> possibility option" where
  "mixRegistry n =
     (if n = ''Mix'' then Some \<lparr>width = 100, height = 10, contents = Some mixContents\<rparr>
      else rowRegistry n)"

definition mixRoot :: choice where
  "mixRoot = Choice ''Mix'' ''Random'' None exampleBox None"

text \<open>
  Two instances on the mix with different pasts and the same future. The first has
  made no draw; its source returns 1/4, then 3/4 for ever. The second has made three
  draws of 1/2, has called the callback once, holds a command and has a property in
  an object of its store; its source returns 1/4 at the next call, then 3/4 for ever.
\<close>

definition mixFresh :: world_seedr where
  "mixFresh = (exampleSeedr mixRegistry 0)\<lparr>random := (\<lambda>i. if i = 0 then 1/4 else 3/4)\<rparr>"

definition mixUsed :: world_seedr where
  "mixUsed = (exampleSeedr mixRegistry 0)
     \<lparr>objects := (\<lambda>a. [])(0 := [(''width'', JNumber 100)]),
      random := (\<lambda>i. if i < 3 then 1/2 else if i = 3 then 1/4 else 3/4), drawn := 3,
      onPlacementCalls := [[]], generatedCommands := [rowA]\<rparr>"








text \<open>Tiles 30 wide again, repeated in the direction \<open>d\<close>.\<close>

definition tileRepeat :: "string \<Rightarrow> possibility_contents" where
  "tileRepeat d = emptyContents\<lparr>mode := ''Repeat'', direction := d,
     children := [typedChild ''Tile'' ''Known'']\<rparr>"

section \<open>Basic facts\<close>

lemma andThen_simps [simp]:
  "andThen OutOfFuel f = OutOfFuel"
  "andThen (Threw e s) f = Threw e s"
  "andThen (Returned v s) f = f v s"
  by (simp_all add: andThen_def)

text \<open>The equations of the loops and of the mutual recursion are unfolded by hand.\<close>

declare generate.simps [simp del]
declare generateChildren.simps [simp del]
declare generateChildrenCertainMap.simps [simp del]
declare generateChildrenRepeatLoop.simps [simp del]
declare generateChildrenRandomLoop.simps [simp del]
declare generateFull.simps [simp del]
declare generateFullLoop.simps [simp del]

lemma spacingOrZero_simps [simp]:
  "spacingOrZero Undefined = Number 0" "spacingOrZero (Number n) = Number n"
  by (simp_all add: spacingOrZero_def)

lemmas parse_defs = parseChoice_def parseChoiceFinal_def ensureSizingOnChoice_def
  ensureDirectionBoundsOnChoice_def setLeadingEdge_def applySnap_def applyStretch_def
  copySchemaArguments_def argumentsVerbatim_def ensureArguments_def setArgument_def
  writeProperty_def
  shrinkPositionByChild_def parseSpacing_def
  objectMerge_def objectCopy_def getPositionExtremes_def choiceFitsPosition_def doesChoiceFit_def
  positionIsNotEmpty_def

text \<open>What the argument handling leaves of the instance: the store only is written.\<close>

lemma store_same: "\<exists>h. s = s\<lparr>objects := h\<rparr>"
  by (rule exI[of _ "objects s"]) simp

lemma store_twice:
  "s1 = s\<lparr>objects := h\<rparr> \<Longrightarrow> s2 = s1\<lparr>objects := h'\<rparr> \<Longrightarrow> \<exists>h. s2 = s\<lparr>objects := h\<rparr>"
  by (rule exI[of _ h']) simp

lemma setArgument_writes:
  "setArgument k v r s = (r', s') \<Longrightarrow> \<exists>h. s' = s\<lparr>objects := h\<rparr>"
  by (cases r) (auto simp add: setArgument_def writeProperty_def intro: store_same)

lemma copyArgumentsLoop_writes:
  "copyArgumentsLoop choice m r s = (r', s') \<Longrightarrow> \<exists>h. s' = s\<lparr>objects := h\<rparr>"
proof (induction m arbitrary: r s)
  case Nil
  then show ?case by (auto intro: store_same)
next
  case (Cons ik rest)
  obtain i k where ik: "ik = (i, k)" by (cases ik)
  obtain r1 s1 where one: "setArgument k (choiceProperty choice i) r s = (r1, s1)"
    by (cases "setArgument k (choiceProperty choice i) r s")
  from setArgument_writes[OF one] obtain h where h: "s1 = s\<lparr>objects := h\<rparr>" ..
  from Cons.prems ik one have "copyArgumentsLoop choice rest r1 s1 = (r', s')"
    by simp
  from Cons.IH[OF this] obtain h' where "s' = s1\<lparr>objects := h'\<rparr>" ..
  with h show ?case by (rule store_twice)
qed

lemma copySchemaArguments_writes:
  "copySchemaArguments c choice args s = (args', s') \<Longrightarrow> \<exists>h. s' = s\<lparr>objects := h\<rparr>"
  by (auto simp add: copySchemaArguments_def split: option.splits prod.splits
      dest: copyArgumentsLoop_writes intro: store_same)

lemma copySchemaArguments_no_map:
  "argumentMap c = None \<Longrightarrow> copySchemaArguments c choice args s = (args, s)"
  by (simp add: copySchemaArguments_def)


text \<open>The examples, evaluated.\<close>

lemma tiles_unlimited:
  "possibilities s = tileRegistry \<Longrightarrow> l = None \<or> l = Some 0 \<Longrightarrow>
   generateChildrenRandom 4 (tileContents l) exampleBox ''right'' (Number 0) s
     = Returned (Some [tileAt 0, tileAt 30, tileAt 60]) s"
  by (auto simp add: generateChildrenRandom_def generateChildrenRandomLoop.simps generateChild_def
      chooseAmongPosition_def chooseAmong_def doesChoiceFit_def
      parse_defs tileRegistry_def tileContents_def emptyContents_def typedChild_def exampleBox_def tileAt_def)

lemmas generate_simps = generate.simps generateChildren.simps generateChildrenCertainMap.simps

section \<open>Weighted choice\<close>







section \<open>Spacing\<close>

text \<open>
  C8: \<^verbatim>\<open>parseSpacing(0)\<close> and \<^verbatim>\<open>parseSpacing(undefined)\<close> return 0, and
  \<^verbatim>\<open>parseSpacing(n)\<close> returns \<open>n\<close> for every plain number \<open>n\<close>; the instance that
  comes back is the one that went in, so no draw is made.
\<close>

theorem parseSpacing_plain_number:
  "parseSpacing (Number 0) s = Returned 0 s \<and> parseSpacing Undefined s = Returned 0 s
   \<and> parseSpacing (Number n) s = Returned n s"
  by (simp add: parseSpacing_def)

section \<open>The errors of generate\<close>

text \<open>
  C4: for a name the registry does not hold, \<^verbatim>\<open>generate\<close> throws the
  schema-not-found error, and for a name whose schema has no \<^verbatim>\<open>contents\<close> it throws
  the empty-contents error; for every fuel, box and instance, and the instance at the
  throw is the instance of the call: nothing has been generated or drawn.
\<close>

theorem generate_errors:
  "(possibilities s name = None \<longrightarrow> generate fuel name command s = Threw (SchemaNotFound name) s)
   \<and> (possibilities s name = Some schema \<and> contents schema = None
        \<longrightarrow> generate fuel name command s = Threw (EmptyContents name) s)"
  by (simp add: generate.simps)

theorem generate_errors_witness:
  "generate 0 ''Sky'' \<lparr>width = 0, height = 0, top' = 8, right = 8, bottom = 0, left = 0\<rparr>
     (exampleSeedr (\<lambda>n. None) 0)
   = Threw (SchemaNotFound ''Sky'') (exampleSeedr (\<lambda>n. None) 0)
   \<and> generate 0 ''Sky'' \<lparr>width = 0, height = 0, top' = 8, right = 8, bottom = 0, left = 0\<rparr>
     (exampleSeedr (\<lambda>n. if n = ''Sky'' then Some \<lparr>width = 8, height = 8, contents = None\<rparr> else None) 0)
   = Threw (EmptyContents ''Sky'')
       (exampleSeedr (\<lambda>n. if n = ''Sky'' then Some \<lparr>width = 8, height = 8, contents = None\<rparr> else None) 0)"
  using generate_errors[where s = "exampleSeedr (\<lambda>n. None) 0" and name = "''Sky''" and fuel = 0
      and command = "\<lparr>width = 0, height = 0, top' = 8, right = 8, bottom = 0, left = 0\<rparr>"]
    generate_errors[where s = "exampleSeedr (\<lambda>n. if n = ''Sky'' then Some \<lparr>width = 8, height = 8, contents = None\<rparr> else None) 0"
      and name = "''Sky''" and schema = "\<lparr>width = 8, height = 8, contents = None\<rparr>" and fuel = 0
      and command = "\<lparr>width = 0, height = 0, top' = 8, right = 8, bottom = 0, left = 0\<rparr>"]
  by (simp add: exampleSeedr_def)

section \<open>Final children\<close>

text \<open>
  C9, with the condition the code needs: when the \<^verbatim>\<open>source\<close> of the child reference
  names a schema of the registry and that schema has \<^verbatim>\<open>contents\<close>,
  \<^verbatim>\<open>parseChoiceFinal\<close> returns a node with the width and height of that schema and
  with the four edges of the current position, whatever the direction; the node has type
  \<^verbatim>\<open>"Known"\<close> whatever the type of the child reference and has no \<^verbatim>\<open>contents\<close>, and
  the loop of \<^verbatim>\<open>generateFull\<close> appends such a node to the accumulator without
  expanding it. No draw is made; the instance that comes back is the one that went in
  but for the objects of its store, which \<^verbatim>\<open>copySchemaArguments\<close> writes when the
  schema has an \<^verbatim>\<open>argumentMap\<close>, and only then. When that schema has no
  \<^verbatim>\<open>contents\<close>, \<^verbatim>\<open>parseChoiceFinal\<close> throws a \<^verbatim>\<open>TypeError\<close> and leaves the
  instance as it is.
\<close>

theorem parseChoiceFinal_pins:
  assumes "source choice = Some src" and "possibilities s src = Some schema"
  shows "(contents schema = Some c \<longrightarrow>
          (\<exists>node h. parseChoiceFinal parent choice p d s = Returned node (s\<lparr>objects := h\<rparr>)
             \<and> (argumentMap c = None \<longrightarrow> h = objects s)
             \<and> ctype node = ''Known'' \<and> ccontents node = None
             \<and> width (box node) = width schema \<and> height (box node) = height schema
             \<and> top' (box node) = top' p \<and> right (box node) = right p
             \<and> bottom (box node) = bottom p \<and> left (box node) = left p
             \<and> generateFullLoop fuel [node] s'
                 = Returned () (s'\<lparr>generatedCommands := generatedCommands s' @ [node]\<rparr>)))
       \<and> (contents schema = None \<longrightarrow> parseChoiceFinal parent choice p d s = Threw TypeError s)"
proof (intro conjI impI)
  assume c: "contents schema = Some c"
  obtain args s1 where cp: "copySchemaArguments c choice (argumentsVerbatim (arguments choice)) s = (args, s1)"
    by (cases "copySchemaArguments c choice (argumentsVerbatim (arguments choice)) s")
  from copySchemaArguments_writes[OF cp] have s1: "s1 = s\<lparr>objects := objects s1\<rparr>"
    by auto
  have "argumentMap c = None \<longrightarrow> objects s1 = objects s"
    using cp by (auto simp add: copySchemaArguments_no_map)
  with s1 assms c cp
  show "\<exists>node h. parseChoiceFinal parent choice p d s = Returned node (s\<lparr>objects := h\<rparr>)
             \<and> (argumentMap c = None \<longrightarrow> h = objects s)
             \<and> ctype node = ''Known'' \<and> ccontents node = None
             \<and> width (box node) = width schema \<and> height (box node) = height schema
             \<and> top' (box node) = top' p \<and> right (box node) = right p
             \<and> bottom (box node) = bottom p \<and> left (box node) = left p
             \<and> generateFullLoop fuel [node] s'
                 = Returned () (s'\<lparr>generatedCommands := generatedCommands s' @ [node]\<rparr>)"
    by (intro exI[of _ "Choice (title choice) ''Known'' args
          (p\<lparr>width := width schema, height := height schema\<rparr>) None"] exI[of _ "objects s1"])
       (simp add: parseChoiceFinal_def generateFullLoop.simps)
next
  assume "contents schema = None"
  with assms show "parseChoiceFinal parent choice p d s = Threw TypeError s"
    by (simp add: parseChoiceFinal_def)
qed

theorem parseChoiceFinal_pins_witness:
  "\<exists>node. parseChoiceFinal emptyContents (finalChild ''CannonSmall'' ''Cannon'') exampleBox ''right''
       (exampleSeedr (cannonRegistry (Some emptyContents)) 0)
     = Returned node (exampleSeedr (cannonRegistry (Some emptyContents)) 0)
     \<and> ctype node = ''Known'' \<and> width (box node) = 8 \<and> left (box node) = 0 \<and> right (box node) = 100"
proof -
  have "possibilities (exampleSeedr (cannonRegistry (Some emptyContents)) 0) ''Cannon''
      = Some \<lparr>width = 8, height = 8, contents = Some emptyContents\<rparr>"
    by (simp add: exampleSeedr_def cannonRegistry_def)
  from parseChoiceFinal_pins[OF _ this, where choice = "finalChild ''CannonSmall'' ''Cannon''"
      and c = emptyContents and parent = emptyContents and p = exampleBox and d = "''right''"
      and fuel = 0 and s' = "exampleSeedr (\<lambda>n. None) 0", THEN conjunct1]
  obtain node where "parseChoiceFinal emptyContents (finalChild ''CannonSmall'' ''Cannon'') exampleBox ''right''
       (exampleSeedr (cannonRegistry (Some emptyContents)) 0)
     = Returned node (exampleSeedr (cannonRegistry (Some emptyContents)) 0)"
     "ctype node = ''Known''" "width (box node) = 8" "left (box node) = left exampleBox"
     "right (box node) = right exampleBox"
    by (auto simp: finalChild_def emptyContents_def)
  then show ?thesis by (simp add: exampleBox_def)
qed

text \<open>
  C9 as the specification states it fails for a source that resolves to a schema
  without \<^verbatim>\<open>contents\<close>: \<^verbatim>\<open>copySchemaArguments\<close> reads
  \<^verbatim>\<open>schema.contents.argumentMap\<close> and throws, and no node is returned.
\<close>

theorem parseChoiceFinal_no_contents_counterexample:
  "parseChoiceFinal emptyContents (finalChild ''CannonSmall'' ''Cannon'') exampleBox ''right''
       (exampleSeedr (cannonRegistry None) 0)
     = Threw TypeError (exampleSeedr (cannonRegistry None) 0)"
  by (simp add: parseChoiceFinal_def finalChild_def exampleSeedr_def cannonRegistry_def)

section \<open>Certain mode: the row of 40 and 60\<close>

text \<open>A child reference with no sizing, no stretch and no weighted arguments, parsed.\<close>

lemma parseChoice_plain:
  assumes "sizing ch = None" "stretch ch = None"
    "arguments ch = NoArguments \<or> (\<exists>r. arguments ch = Literal r)"
    "possibilities s (title ch) = Some schema" "contents schema = Some k"
    "copySchemaArguments k ch (argumentsVerbatim (arguments ch)) s = (args, s')"
  shows "parseChoice ch p d s =
     Returned (Choice (title ch) (type ch) args
        (applySnap (setLeadingEdge (p\<lparr>width := width schema, height := height schema\<rparr>) d) (snap k))
        None) s'"
  using assms
  by (auto simp add: parseChoice_def ensureSizingOnChoice_def ensureDirectionBoundsOnChoice_def
      applyStretch_def)

lemma applySnap_horizontal:
  "left b + width b = right b \<Longrightarrow> left (applySnap b sn) = left b \<and> right (applySnap b sn) = right b"
  by (simp add: applySnap_def)

text \<open>
  C6: a schema in Certain mode with direction \<^verbatim>\<open>"right"\<close>, spacing 0 (or none) and two
  children of type \<^verbatim>\<open>"Known"\<close> whose schemas are 40 and 60 wide, generated into a box
  with \<open>left = 0\<close> and \<open>right = 100\<close>: \<^verbatim>\<open>generate\<close> returns two children, the first
  from 0 to 40, the second from 40 to 100, in an envelope from 0 to 100. This holds for
  every height, top and bottom, every snap of the children's schemas, every fuel and
  every random source (no draw is made). The instance that comes back is the one that
  went in but for the objects of its store, which are written when a child's schema
  has an \<^verbatim>\<open>argumentMap\<close>, and only then.
\<close>

theorem generate_certain_right_40_60:
  assumes schema: "possibilities s name = Some top_schema" "contents top_schema = Some rc"
      "mode rc = ''Certain''" "direction rc = ''right''" "children rc = [c1, c2]"
      "spacing rc = Number 0 \<or> spacing rc = Undefined"
    and c1: "type c1 = ''Known''" "sizing c1 = None" "stretch c1 = None"
      "arguments c1 = NoArguments \<or> (\<exists>r. arguments c1 = Literal r)"
      "possibilities s (title c1) = Some s1" "contents s1 = Some k1" "width s1 = 40"
    and c2: "type c2 = ''Known''" "sizing c2 = None" "stretch c2 = None"
      "arguments c2 = NoArguments \<or> (\<exists>r. arguments c2 = Literal r)"
      "possibilities s (title c2) = Some s2" "contents s2 = Some k2" "width s2 = 60"
    and p: "left p = 0" "right p = 100"
  shows "\<exists>n1 n2 g h. generate fuel name p s = Returned (Some g) (s\<lparr>objects := h\<rparr>)
           \<and> (argumentMap k1 = None \<and> argumentMap k2 = None \<longrightarrow> h = objects s)
           \<and> gchildren g = [n1, n2]
           \<and> left (box n1) = 0 \<and> right (box n1) = 40
           \<and> left (box n2) = 40 \<and> right (box n2) = 100
           \<and> gleft g = 0 \<and> gright g = 100"
proof -
  define q where "q = objectMerge top_schema (objectCopy p)"
  have q: "left q = 0" "right q = 100"
    using p by (simp_all add: q_def objectMerge_def objectCopy_def)
  have sp: "spacingOrZero (spacing rc) = Number 0"
    using schema(6) by auto
  obtain a1 t1 where cp1: "copySchemaArguments k1 c1 (argumentsVerbatim (arguments c1)) s = (a1, t1)"
    by (cases "copySchemaArguments k1 c1 (argumentsVerbatim (arguments c1)) s")
  from copySchemaArguments_writes[OF cp1] obtain h1 where h1: "t1 = s\<lparr>objects := h1\<rparr>" ..
  define b1 where "b1 = applySnap (setLeadingEdge (q\<lparr>width := width s1, height := height s1\<rparr>) ''right'') (snap k1)"
  define n1 where "n1 = Choice (title c1) (type c1) a1 b1 None"
  have pc1: "parseChoice c1 q ''right'' s = Returned n1 t1"
    unfolding n1_def b1_def by (rule parseChoice_plain[OF c1(2,3,4,5,6) cp1])
  have b1: "left b1 = 0" "right b1 = 40"
    using applySnap_horizontal[of "setLeadingEdge (q\<lparr>width := width s1, height := height s1\<rparr>) ''right''" "snap k1"]
      q c1(7) by (simp_all add: b1_def setLeadingEdge_def)
  define q' where "q' = q\<lparr>left := right b1 + 0\<rparr>"
  have shr1: "shrinkPositionByChild q n1 ''right'' (Number 0) t1 = Returned q' t1"
    by (simp add: shrinkPositionByChild_def parseSpacing_def q'_def n1_def)
  have q': "left q' = 40" "right q' = 100"
    using q b1 by (simp_all add: q'_def)
  have reg: "possibilities t1 (title c2) = Some s2"
    using c2(5) h1 by simp
  obtain a2 t2 where cp2: "copySchemaArguments k2 c2 (argumentsVerbatim (arguments c2)) t1 = (a2, t2)"
    by (cases "copySchemaArguments k2 c2 (argumentsVerbatim (arguments c2)) t1")
  from copySchemaArguments_writes[OF cp2] obtain h2 where h2: "t2 = t1\<lparr>objects := h2\<rparr>" ..
  define b2 where "b2 = applySnap (setLeadingEdge (q'\<lparr>width := width s2, height := height s2\<rparr>) ''right'') (snap k2)"
  define n2 where "n2 = Choice (title c2) (type c2) a2 b2 None"
  have pc2: "parseChoice c2 q' ''right'' t1 = Returned n2 t2"
    unfolding n2_def b2_def by (rule parseChoice_plain[OF c2(2,3,4) reg c2(6) cp2])
  have b2: "left b2 = 40" "right b2 = 100"
    using applySnap_horizontal[of "setLeadingEdge (q'\<lparr>width := width s2, height := height s2\<rparr>) ''right''" "snap k2"]
      q' c2(7) by (simp_all add: b2_def setLeadingEdge_def)
  obtain q'' where shr2: "shrinkPositionByChild q' n2 ''right'' (Number 0) t2 = Returned q'' t2"
    by (simp add: shrinkPositionByChild_def parseSpacing_def)
  have ty1: "ctype n1 = ''Known''" "box n1 = b1" and ty2: "ctype n2 = ''Known''" "box n2 = b2"
    using c1(1) c2(1) by (simp_all add: n1_def n2_def)
  have certain: "generateChildrenCertainMap fuel rc [c1, c2] q ''right'' (Number 0) s = Returned [n1, n2] t2"
    using c1(1) c2(1) by (simp add: generateChildrenCertainMap.simps pc1 pc2 shr1 shr2 ty1 ty2)
  have run: "generate fuel name p s = Returned (getPositionExtremes (Some [n1, n2])) t2"
    using schema(1-5) by (simp add: generate.simps generateChildren.simps sp certain q_def[symmetric])
  obtain g where g: "getPositionExtremes (Some [n1, n2]) = Some g" "gchildren g = [n1, n2]"
      "gleft g = min (left b1) (left b2)" "gright g = max (right b1) (right b2)"
    by (simp add: getPositionExtremes_def ty1 ty2)
  from h1 h2 have t2: "t2 = s\<lparr>objects := objects t2\<rparr>"
    by simp
  have same: "objects t2 = objects s" if "argumentMap k1 = None" "argumentMap k2 = None"
    using cp1 cp2 that by (simp add: copySchemaArguments_no_map)
  from run g(1) t2 have "generate fuel name p s = Returned (Some g) (s\<lparr>objects := objects t2\<rparr>)"
    by simp
  with same g(2-4) b1 b2 ty1 ty2 show ?thesis
    by (intro exI[of _ n1] exI[of _ n2] exI[of _ g] exI[of _ "objects t2"]) simp
qed

theorem generate_certain_right_40_60_witness:
  "\<exists>n1 n2 g. generate 0 ''Row'' exampleBox (exampleSeedr rowRegistry 0)
        = Returned (Some g) (exampleSeedr rowRegistry 0) \<and> gchildren g = [n1, n2]
      \<and> left (box n1) = 0 \<and> right (box n1) = 40 \<and> left (box n2) = 40 \<and> right (box n2) = 100
      \<and> gleft g = 0 \<and> gright g = 100"
proof -
  have "\<exists>n1 n2 g h. generate 0 ''Row'' exampleBox (exampleSeedr rowRegistry 0)
        = Returned (Some g) ((exampleSeedr rowRegistry 0)\<lparr>objects := h\<rparr>)
      \<and> (argumentMap emptyContents = None \<and> argumentMap emptyContents = None
           \<longrightarrow> h = objects (exampleSeedr rowRegistry 0))
      \<and> gchildren g = [n1, n2]
      \<and> left (box n1) = 0 \<and> right (box n1) = 40 \<and> left (box n2) = 40 \<and> right (box n2) = 100
      \<and> gleft g = 0 \<and> gright g = 100"
    by (rule generate_certain_right_40_60[where top_schema = "the (rowRegistry ''Row'')"
        and rc = "the (contents (the (rowRegistry ''Row'')))"
        and ?c1.0 = "typedChild ''A'' ''Known''" and ?c2.0 = "typedChild ''B'' ''Known''"
        and ?s1.0 = "the (rowRegistry ''A'')" and ?s2.0 = "the (rowRegistry ''B'')"
        and ?k1.0 = emptyContents and ?k2.0 = emptyContents])
      (simp_all add: exampleSeedr_def rowRegistry_def emptyContents_def typedChild_def exampleBox_def)
  then show ?thesis
    by (auto simp add: emptyContents_def)
qed

section \<open>Random mode: the limit\<close>

text \<open>Nothing that one turn of the loop calls is cut off for want of fuel.\<close>

lemma andThen_returns:
  "m \<noteq> OutOfFuel \<Longrightarrow> (\<And>v s. f v s \<noteq> OutOfFuel) \<Longrightarrow> andThen m f \<noteq> OutOfFuel"
  by (cases m) simp_all

lemma parseSpacing_returns: "parseSpacing sp s \<noteq> OutOfFuel"
proof (cases sp)
  case (MinMax a b)
  then show ?thesis by (simp add: parseSpacing_def split: prod.splits)
next
  case (Choices cs)
  then show ?thesis by (simp add: parseSpacing_def split: prod.splits option.splits)
next
  case (Object ob)
  then show ?thesis by (simp add: parseSpacing_def split: prod.splits)
qed (simp_all add: parseSpacing_def)

lemma shrinkPositionByChild_returns: "shrinkPositionByChild p ch d sp s \<noteq> OutOfFuel"
  unfolding shrinkPositionByChild_def
  by (simp; intro conjI impI andThen_returns parseSpacing_returns; simp)

lemma parseChoice_returns: "parseChoice ch p d s \<noteq> OutOfFuel"
  unfolding parseChoice_def
proof (rule andThen_returns)
  show "(case arguments ch of
          Alternatives r alts \<Rightarrow>
            (case chooseAmong alts s of
               (None, s') \<Rightarrow> Threw TypeError s'
             | (Some a, s') \<Rightarrow> Returned (map_option Shared (values' a)) s')
        | a \<Rightarrow> Returned (argumentsVerbatim a) s) \<noteq> OutOfFuel"
    by (simp split: child_arguments.splits prod.splits option.splits)
qed (simp add: Let_def split: option.splits prod.splits)

lemma generateChild_returns: "generateChild c p d s \<noteq> OutOfFuel"
  unfolding generateChild_def
proof (rule andThen_returns)
  show "chooseAmongPosition (children c) p s \<noteq> OutOfFuel"
    by (simp add: chooseAmongPosition_def split: option.splits prod.splits)
next
  fix v s'
  show "(case v of None \<Rightarrow> Returned None s'
         | Some ch \<Rightarrow> andThen (parseChoice ch p d s') (\<lambda>output s''. Returned (Some output) s'')) \<noteq> OutOfFuel"
    by (cases v) (simp_all add: andThen_returns parseChoice_returns)
qed

lemma placedInTurns_returns: "placedInTurns n c p d sp placed s \<noteq> OutOfFuel"
proof (induction n arbitrary: p placed s)
  case 0
  show ?case by simp
next
  case (Suc n)
  have "andThen (generateChild c p d s)
          (\<lambda>child s1.
             case child of
               None \<Rightarrow> Returned placed s1
             | Some ch \<Rightarrow>
                 andThen (shrinkPositionByChild p ch d sp s1)
                   (\<lambda>p' s2. placedInTurns n c p' d sp (placed @ [ch]) s2)) \<noteq> OutOfFuel"
  proof (rule andThen_returns[OF generateChild_returns])
    fix v s1
    show "(case v of None \<Rightarrow> Returned placed s1
           | Some ch \<Rightarrow> andThen (shrinkPositionByChild p ch d sp s1)
               (\<lambda>p' s2. placedInTurns n c p' d sp (placed @ [ch]) s2)) \<noteq> OutOfFuel"
      by (cases v) (simp_all add: andThen_returns shrinkPositionByChild_returns Suc.IH)
  qed
  then show ?case by simp
qed

lemma first_above:
  assumes "0 < l"
  shows "real k > l \<longleftrightarrow> Suc (nat \<lfloor>l\<rfloor>) \<le> k"
proof -
  have "real k > l \<longleftrightarrow> \<lfloor>l\<rfloor> < int k"
    by (simp add: floor_less_iff)
  also have "\<dots> \<longleftrightarrow> Suc (nat \<lfloor>l\<rfloor>) \<le> k"
    using assms by linarith
  finally show ?thesis .
qed

lemma limited_turns:
  assumes lim: "limit c = Some l" "0 < l"
  shows "length placed + m = Suc (nat \<lfloor>l\<rfloor>) \<Longrightarrow> 0 < m \<Longrightarrow> m \<le> fuel
    \<Longrightarrow> generateChildrenRandomLoop fuel c p d sp placed s =
        (case placedInTurns m c p d sp placed s of
           OutOfFuel \<Rightarrow> OutOfFuel
         | Threw e s' \<Rightarrow> Threw e s'
         | Returned cs s' \<Rightarrow>
             if real (length cs) > l then Returned None s' else Returned (Some cs) s')"
proof (induction m arbitrary: fuel p placed s)
  case 0
  then show ?case by simp
next
  case (Suc m)
  from Suc.prems(3) obtain f where fuel: "fuel = Suc f" "m \<le> f"
    by (cases fuel) simp_all
  from Suc.prems(1) have "\<not> Suc (nat \<lfloor>l\<rfloor>) \<le> length placed"
    by simp
  with first_above[OF lim(2), of "length placed"] have small: "\<not> real (length placed) > l"
    by blast
  show ?case
  proof (cases "positionIsNotEmpty p d")
    case False
    with small show ?thesis
      by (simp add: generateChildrenRandomLoop.simps)
  next
    case True
    show ?thesis
    proof (cases "generateChild c p d s")
      case (Returned child s1)
      show ?thesis
      proof (cases child)
        case None
        with Returned True small fuel show ?thesis
          by (simp add: generateChildrenRandomLoop.simps)
      next
        case (Some ch)
        show ?thesis
        proof (cases "shrinkPositionByChild p ch d sp s1")
          case (Returned p' s2) note shr = this
          show ?thesis
          proof (cases "m = 0")
            case True
            with Suc.prems(1) have "Suc (nat \<lfloor>l\<rfloor>) \<le> length (placed @ [ch])"
              by simp
            with first_above[OF lim(2), of "length (placed @ [ch])"]
            have "real (length (placed @ [ch])) > l"
              by blast
            with \<open>m = 0\<close> \<open>positionIsNotEmpty p d\<close> \<open>generateChild c p d s = Returned child s1\<close>
              Some shr fuel lim show ?thesis
              by (simp add: generateChildrenRandomLoop.simps)
          next
            case False
            with Suc.prems(1) have "\<not> Suc (nat \<lfloor>l\<rfloor>) \<le> length (placed @ [ch])"
              by simp
            with first_above[OF lim(2), of "length (placed @ [ch])"]
            have "\<not> real (length (placed @ [ch])) > l"
              by blast
            moreover from Suc.prems(1) have "length (placed @ [ch]) + m = Suc (nat \<lfloor>l\<rfloor>)"
              by simp
            note Suc.IH[OF this _ fuel(2), of p' s2]
            ultimately show ?thesis
              using False \<open>positionIsNotEmpty p d\<close> \<open>generateChild c p d s = Returned child s1\<close>
                Some shr fuel lim
              by (simp add: generateChildrenRandomLoop.simps)
          qed
        qed (use True \<open>generateChild c p d s = Returned child s1\<close> Some fuel in
              \<open>simp_all add: generateChildrenRandomLoop.simps\<close>)
      qed
    qed (use True fuel in \<open>simp_all add: generateChildrenRandomLoop.simps\<close>)
  qed
qed


lemma generateChild_limit: "generateChild (c\<lparr>limit := l\<rparr>) p d s = generateChild c p d s"
  by (simp add: generateChild_def)

lemma zero_limit:
  assumes "limit c = Some 0"
  shows "generateChildrenRandomLoop fuel c p d sp placed s
     = generateChildrenRandomLoop fuel (c\<lparr>limit := None\<rparr>) p d sp placed s"
proof (induction fuel arbitrary: p placed s)
  case 0
  show ?case by (simp add: generateChildrenRandomLoop.simps)
next
  case (Suc n)
  show ?case
    apply (subst generateChildrenRandomLoop.simps[of "Suc n" c])
    apply (subst generateChildrenRandomLoop.simps[of "Suc n" "c\<lparr>limit := None\<rparr>"])
    apply (simp add: assms generateChild_limit Suc.IH cong: option.case_cong)
    done
qed

lemma unlimited_returns_list:
  "generateChildrenRandomLoop fuel (c\<lparr>limit := None\<rparr>) p d sp placed s \<noteq> Returned None s'"
proof (induction fuel arbitrary: p placed s)
  case 0
  show ?case by (simp add: generateChildrenRandomLoop.simps)
next
  case (Suc n)
  show ?case
  proof (cases "positionIsNotEmpty p d")
    case False
    then show ?thesis by (simp add: generateChildrenRandomLoop.simps)
  next
    case True
    show ?thesis
    proof (cases "generateChild c p d s")
      case (Returned child s1)
      show ?thesis
      proof (cases child)
        case None
        with Returned True show ?thesis
          by (simp add: generateChildrenRandomLoop.simps generateChild_limit)
      next
        case (Some ch)
        with Returned True Suc.IH show ?thesis
          by (cases "shrinkPositionByChild p ch d sp s1")
             (simp_all add: generateChildrenRandomLoop.simps generateChild_limit)
      qed
    qed (use True in \<open>simp_all add: generateChildrenRandomLoop.simps generateChild_limit\<close>)
  qed
qed

text \<open>
  C3, for a limit the code takes for one (\<^verbatim>\<open>contents.limit && ...\<close>: a positive
  number \<open>l\<close>). The number of children placed first exceeds \<open>l\<close> at the child
  number \<open>\<lfloor>l\<rfloor> + 1\<close>. Let the loop run for that many turns at most, the limit
  left aside (\<open>placedInTurns\<close>, which always ends). If it throws,
  \<^verbatim>\<open>generateChildrenRandom\<close> throws the same. If it has then placed more than \<open>l\<close>
  children, \<^verbatim>\<open>generateChildrenRandom\<close> returns \<^verbatim>\<open>undefined\<close>: the whole list is
  discarded, not cut at the limit, whether or not the loop would have ended without
  the limit. If it has placed no more than \<open>l\<close>, the loop has ended by itself and
  \<^verbatim>\<open>generateChildrenRandom\<close> returns that list. So with fuel for \<open>\<lfloor>l\<rfloor> + 1\<close>
  turns the call always ends. A limit of 0 is no limit: the call is the call of the
  schema without \<^verbatim>\<open>limit\<close>, and never returns \<^verbatim>\<open>undefined\<close>.
\<close>

theorem generateChildrenRandom_limit:
  "(limit c = Some l \<and> 0 < l \<and> nat \<lfloor>l\<rfloor> < fuel \<longrightarrow>
      placedInTurns (Suc (nat \<lfloor>l\<rfloor>)) c p d sp [] s \<noteq> OutOfFuel
      \<and> generateChildrenRandom fuel c p d sp s =
          (case placedInTurns (Suc (nat \<lfloor>l\<rfloor>)) c p d sp [] s of
             OutOfFuel \<Rightarrow> OutOfFuel
           | Threw e s' \<Rightarrow> Threw e s'
           | Returned cs s' \<Rightarrow>
               if real (length cs) > l then Returned None s' else Returned (Some cs) s'))
   \<and> (limit c = Some 0 \<longrightarrow>
        generateChildrenRandom fuel c p d sp s = generateChildrenRandom fuel (c\<lparr>limit := None\<rparr>) p d sp s
        \<and> (\<forall>s'. generateChildrenRandom fuel c p d sp s \<noteq> Returned None s'))"
proof (intro conjI impI)
  assume a: "limit c = Some l \<and> 0 < l \<and> nat \<lfloor>l\<rfloor> < fuel"
  show "placedInTurns (Suc (nat \<lfloor>l\<rfloor>)) c p d sp [] s \<noteq> OutOfFuel"
    by (rule placedInTurns_returns)
  from a have "Suc (nat \<lfloor>l\<rfloor>) \<le> fuel" by simp
  from limited_turns[of c l "[]" "Suc (nat \<lfloor>l\<rfloor>)" fuel p d sp s, OF _ _ _ _ this] a
  show "generateChildrenRandom fuel c p d sp s =
          (case placedInTurns (Suc (nat \<lfloor>l\<rfloor>)) c p d sp [] s of
             OutOfFuel \<Rightarrow> OutOfFuel
           | Threw e s' \<Rightarrow> Threw e s'
           | Returned cs s' \<Rightarrow>
               if real (length cs) > l then Returned None s' else Returned (Some cs) s')"
    by (simp add: generateChildrenRandom_def)
next
  assume z: "limit c = Some 0"
  show eq: "generateChildrenRandom fuel c p d sp s = generateChildrenRandom fuel (c\<lparr>limit := None\<rparr>) p d sp s"
    unfolding generateChildrenRandom_def by (rule zero_limit[OF z])
  show "\<forall>s'. generateChildrenRandom fuel c p d sp s \<noteq> Returned None s'"
    unfolding eq by (simp add: generateChildrenRandom_def unlimited_returns_list)
qed

text \<open>The tiles of the examples, placed.\<close>

lemma tiles_placed:
  "possibilities s = tileRegistry \<Longrightarrow>
   placedInTurns 3 (tileContents l) exampleBox ''right'' (Number 0) [] s
     = Returned [tileAt 0, tileAt 30, tileAt 60] s"
  by (simp add: numeral_3_eq_3 generateChild_def
      chooseAmongPosition_def chooseAmong_def doesChoiceFit_def
      parse_defs tileRegistry_def tileContents_def emptyContents_def typedChild_def exampleBox_def tileAt_def)

lemma thin_placed:
  "possibilities s = thinRegistry \<Longrightarrow>
   placedInTurns 3 (tileContents l) exampleBox ''right'' (Number 0) [] s
     = Returned [thinTile, thinTile, thinTile] s"
  by (simp add: numeral_3_eq_3 generateChild_def
      chooseAmongPosition_def chooseAmong_def doesChoiceFit_def
      parse_defs thinRegistry_def tileContents_def emptyContents_def typedChild_def exampleBox_def thinTile_def)

text \<open>
  Three tiles fit a box 100 wide; with the limit 2 nothing is returned. Tiles of no
  width never fill the box; with the limit 2 nothing is returned either. With the
  limit 0 something is returned.
\<close>

theorem generateChildrenRandom_limit_witness:
  "generateChildrenRandom 3 (tileContents (Some 2)) exampleBox ''right'' (Number 0)
       (exampleSeedr tileRegistry 0) = Returned None (exampleSeedr tileRegistry 0)
   \<and> generateChildrenRandom 3 (tileContents (Some 2)) exampleBox ''right'' (Number 0)
       (exampleSeedr thinRegistry 0) = Returned None (exampleSeedr thinRegistry 0)
   \<and> generateChildrenRandom 4 (tileContents (Some 0)) exampleBox ''right'' (Number 0)
       (exampleSeedr tileRegistry 0) \<noteq> Returned None (exampleSeedr tileRegistry 0)"
proof -
  have l: "limit (tileContents (Some 2)) = Some 2 \<and> (0::real) < 2 \<and> nat \<lfloor>2::real\<rfloor> < 3"
      "Suc (nat \<lfloor>2::real\<rfloor>) = 3" "limit (tileContents (Some 0)) = Some 0"
    by (simp_all add: tileContents_def)
  have "generateChildrenRandom 3 (tileContents (Some 2)) exampleBox ''right'' (Number 0)
       (exampleSeedr tileRegistry 0) = Returned None (exampleSeedr tileRegistry 0)"
    using generateChildrenRandom_limit[where c = "tileContents (Some 2)" and l = 2 and fuel = 3
      and p = exampleBox and d = "''right''" and sp = "Number 0" and s = "exampleSeedr tileRegistry 0"] l(1)
    by (simp only: l(2) tiles_placed[of "exampleSeedr tileRegistry 0" "Some 2", simplified exampleSeedr_def, simplified, folded exampleSeedr_def])
       simp
  moreover have "generateChildrenRandom 3 (tileContents (Some 2)) exampleBox ''right'' (Number 0)
       (exampleSeedr thinRegistry 0) = Returned None (exampleSeedr thinRegistry 0)"
    using generateChildrenRandom_limit[where c = "tileContents (Some 2)" and l = 2 and fuel = 3
      and p = exampleBox and d = "''right''" and sp = "Number 0" and s = "exampleSeedr thinRegistry 0"] l(1)
    by (simp only: l(2) thin_placed[of "exampleSeedr thinRegistry 0" "Some 2", simplified exampleSeedr_def, simplified, folded exampleSeedr_def])
       simp
  moreover have "generateChildrenRandom 4 (tileContents (Some 0)) exampleBox ''right'' (Number 0)
       (exampleSeedr tileRegistry 0) \<noteq> Returned None (exampleSeedr tileRegistry 0)"
    using generateChildrenRandom_limit[where c = "tileContents (Some 0)" and l = 0 and fuel = 4
      and p = exampleBox and d = "''right''" and sp = "Number 0" and s = "exampleSeedr tileRegistry 0"] l(3)
    by blast
  ultimately show ?thesis by blast
qed

text \<open>
  C3 as the specification states it fails for the limit 0: three children are placed,
  more than the limit, and all three are returned.
\<close>

theorem generateChildrenRandom_limit_zero_counterexample:
  "generateChildrenRandom 4 (tileContents (Some 0)) exampleBox ''right'' (Number 0)
       (exampleSeedr tileRegistry 0)
     = Returned (Some [tileAt 0, tileAt 30, tileAt 60]) (exampleSeedr tileRegistry 0)"
  by (rule tiles_unlimited) (simp_all add: exampleSeedr_def)

section \<open>Generation only draws and writes arguments\<close>

lemma drawsAndWrites_refl [simp]: "drawsAndWrites s s"
  unfolding drawsAndWrites_def by (rule exI[of _ 0], rule exI[of _ "objects s"]) simp




lemma confined_simps [simp]:
  "confined s OutOfFuel" "confined s (Threw e s') = drawsAndWrites s s'"
  "confined s (Returned v s') = drawsAndWrites s s'"
  by (simp_all add: confined_def)




















section \<open>The accumulator\<close>








section \<open>Generation depends on the registry and the draws only\<close>

lemma relOutcome_simps [simp]:
  "relOutcome R OutOfFuel b \<longleftrightarrow> b = OutOfFuel"
  "relOutcome R (Threw e s) b \<longleftrightarrow> (\<exists>t. b = Threw e t \<and> R s t)"
  "relOutcome R (Returned v s) b \<longleftrightarrow> (\<exists>t. b = Returned v t \<and> R s t)"
  by (simp_all add: relOutcome_def)

lemma relOutcome_andThen:
  "relOutcome R m m' \<Longrightarrow> (\<And>v s t. R s t \<Longrightarrow> relOutcome R (f v s) (f' v t))
     \<Longrightarrow> relOutcome R (andThen m f) (andThen m' f')"
  by (cases m) auto

lemma drawRelation_possibilities: "drawRelation R \<Longrightarrow> R s t \<Longrightarrow> possibilities t = possibilities s"
  by (simp add: drawRelation_def)

lemma drawRelation_write:
  "drawRelation R \<Longrightarrow> R s t \<Longrightarrow> R (writeProperty a k v s) (writeProperty a k v t)"
  by (simp add: drawRelation_def)

lemma setArgument_rel:
  assumes "drawRelation R" "R s t" "setArgument k v r s = (r', s')"
  shows "\<exists>t'. setArgument k v r t = (r', t') \<and> R s' t'"
proof (cases r)
  case (Shared a)
  with assms(3) have "r' = Shared a" "s' = writeProperty a k v s"
    by (auto simp add: setArgument_def)
  with drawRelation_write[OF assms(1,2), of a k v] Shared
  show ?thesis by (simp add: setArgument_def)
next
  case (Own ob)
  with assms show ?thesis by (auto simp add: setArgument_def)
qed

lemma copyArgumentsLoop_rel:
  assumes "drawRelation R"
  shows "R s t \<Longrightarrow> copyArgumentsLoop ch m r s = (r', s')
    \<Longrightarrow> \<exists>t'. copyArgumentsLoop ch m r t = (r', t') \<and> R s' t'"
proof (induction m arbitrary: r s t)
  case Nil
  then show ?case by simp
next
  case (Cons ik rest)
  obtain i k where ik: "ik = (i, k)" by (cases ik)
  obtain r1 s1 where one: "setArgument k (choiceProperty ch i) r s = (r1, s1)"
    by (cases "setArgument k (choiceProperty ch i) r s")
  from setArgument_rel[OF assms Cons.prems(1) one]
  obtain t1 where t1: "setArgument k (choiceProperty ch i) r t = (r1, t1)" "R s1 t1"
    by blast
  from Cons.prems(2) ik one have "copyArgumentsLoop ch rest r1 s1 = (r', s')"
    by simp
  from Cons.IH[OF t1(2) this] t1(1) ik show ?case by simp
qed

lemma copySchemaArguments_rel:
  assumes "drawRelation R" "R s t" "copySchemaArguments c ch args s = (args', s')"
  shows "\<exists>t'. copySchemaArguments c ch args t = (args', t') \<and> R s' t'"
proof (cases "argumentMap c")
  case None
  with assms show ?thesis by (simp add: copySchemaArguments_def)
next
  case (Some m)
  obtain r1 s1 where l: "copyArgumentsLoop ch m (ensureArguments args) s = (r1, s1)"
    by (cases "copyArgumentsLoop ch m (ensureArguments args) s")
  from copyArgumentsLoop_rel[OF assms(1,2) l] assms(3) Some l show ?thesis
    by (auto simp add: copySchemaArguments_def)
qed

lemma applyStretch_rel:
  assumes "drawRelation R" "R s t" "applyStretch ch p out s = (out', s')"
  shows "\<exists>t'. applyStretch ch p out t = (out', t') \<and> R s' t'"
proof (cases "stretch ch")
  case None
  with assms show ?thesis by (simp add: applyStretch_def)
next
  case (Some f)
  let ?r = "ensureArguments (snd out)"
  obtain r1 s1 where w: "(if stretchWidth f
      then setArgument ''width'' (JNumber (right p - left p)) ?r s else (?r, s)) = (r1, s1)"
    by (cases "if stretchWidth f
      then setArgument ''width'' (JNumber (right p - left p)) ?r s else (?r, s)")
  then have "\<exists>t1. (if stretchWidth f
      then setArgument ''width'' (JNumber (right p - left p)) ?r t else (?r, t)) = (r1, t1) \<and> R s1 t1"
    using assms(2) by (auto split: if_splits dest: setArgument_rel[OF assms(1,2)])
  then obtain t1 where t1: "(if stretchWidth f
      then setArgument ''width'' (JNumber (right p - left p)) ?r t else (?r, t)) = (r1, t1)" "R s1 t1"
    by blast
  obtain r2 s2 where v: "(if stretchHeight f
      then setArgument ''height'' (JNumber (top' p - bottom p)) r1 s1 else (r1, s1)) = (r2, s2)"
    by (cases "if stretchHeight f
      then setArgument ''height'' (JNumber (top' p - bottom p)) r1 s1 else (r1, s1)")
  then have "\<exists>t2. (if stretchHeight f
      then setArgument ''height'' (JNumber (top' p - bottom p)) r1 t1 else (r1, t1)) = (r2, t2) \<and> R s2 t2"
    using t1(2) by (auto split: if_splits dest: setArgument_rel[OF assms(1) t1(2)])
  then obtain t2 where t2: "(if stretchHeight f
      then setArgument ''height'' (JNumber (top' p - bottom p)) r1 t1 else (r1, t1)) = (r2, t2)" "R s2 t2"
    by blast
  from assms(3) Some w v have "s' = s2"
      "out' = ((if stretchHeight f
                then (if stretchWidth f then (fst out)\<lparr>left := left p, right := right p, width := right p - left p\<rparr> else fst out)
                       \<lparr>top' := top' p, bottom := bottom p, height := top' p - bottom p\<rparr>
                else (if stretchWidth f then (fst out)\<lparr>left := left p, right := right p, width := right p - left p\<rparr> else fst out)),
               Some r2)"
    by (auto simp add: applyStretch_def Let_def split: if_splits prod.splits)
  moreover from Some t1(1) t2(1) have "applyStretch ch p out t =
      (((if stretchHeight f
                then (if stretchWidth f then (fst out)\<lparr>left := left p, right := right p, width := right p - left p\<rparr> else fst out)
                       \<lparr>top' := top' p, bottom := bottom p, height := top' p - bottom p\<rparr>
                else (if stretchWidth f then (fst out)\<lparr>left := left p, right := right p, width := right p - left p\<rparr> else fst out)),
               Some r2), t2)"
    by (auto simp add: applyStretch_def Let_def split: if_splits prod.splits)
  ultimately show ?thesis using t2(2) by simp
qed

lemma callRandom_rel:
  "drawRelation R \<Longrightarrow> R s t \<Longrightarrow> callRandom s = (v, s') \<Longrightarrow> \<exists>t'. callRandom t = (v, t') \<and> R s' t'"
  unfolding drawRelation_def by (metis fst_conv snd_conv surjective_pairing)

lemma randomPercentage_rel:
  "drawRelation R \<Longrightarrow> R s t \<Longrightarrow> randomPercentage s = (v, s') \<Longrightarrow> \<exists>t'. randomPercentage t = (v, t') \<and> R s' t'"
  by (auto simp add: randomPercentage_def split: prod.splits dest: callRandom_rel)

lemma randomBetween_rel:
  "drawRelation R \<Longrightarrow> R s t \<Longrightarrow> randomBetween a b s = (v, s') \<Longrightarrow> \<exists>t'. randomBetween a b t = (v, t') \<and> R s' t'"
  by (auto simp add: randomBetween_def split: prod.splits dest: callRandom_rel)

lemma chooseAmong_rel:
  "drawRelation R \<Longrightarrow> R s t \<Longrightarrow> chooseAmong cs s = (v, s') \<Longrightarrow> \<exists>t'. chooseAmong cs t = (v, t') \<and> R s' t'"
  by (auto simp add: chooseAmong_def split: list.splits prod.splits dest: randomPercentage_rel)

lemma parseSpacingObject_rel:
  "drawRelation R \<Longrightarrow> R s t \<Longrightarrow> parseSpacingObject x s = (v, s')
     \<Longrightarrow> \<exists>t'. parseSpacingObject x t = (v, t') \<and> R s' t'"
  by (auto simp add: parseSpacingObject_def Let_def split: spacing_value.splits prod.splits
      dest: randomBetween_rel)


lemma chooseAmongPosition_rel:
  assumes "drawRelation R" "R s t"
  shows "relOutcome R (chooseAmongPosition cs p s) (chooseAmongPosition cs p t)"
proof (cases "filterFitting (possibilities s) (right p - left p) (top' p - bottom p) cs")
  case None
  with assms show ?thesis
    by (simp add: chooseAmongPosition_def drawRelation_possibilities[OF assms])
next
  case (Some fitting)
  obtain v s' where ca: "chooseAmong fitting s = (v, s')"
    by (cases "chooseAmong fitting s")
  from chooseAmong_rel[OF assms ca] Some ca show ?thesis
    by (auto simp add: chooseAmongPosition_def drawRelation_possibilities[OF assms])
qed

lemma parseSpacing_rel:
  assumes "drawRelation R" "R s t"
  shows "relOutcome R (parseSpacing sp s) (parseSpacing sp t)"
proof (cases sp)
  case (MinMax a b)
  obtain r s1 where rb: "randomBetween a b s = (r, s1)"
    by (cases "randomBetween a b s")
  from randomBetween_rel[OF assms rb] show ?thesis
    by (auto simp add: MinMax parseSpacing_def rb parseSpacingObject_def)
next
  case (Choices cs)
  obtain c s1 where ca: "chooseAmong cs s = (c, s1)"
    by (cases "chooseAmong cs s")
  from chooseAmong_rel[OF assms ca] obtain t1 where ct: "chooseAmong cs t = (c, t1)" "R s1 t1"
    by auto
  show ?thesis
  proof (cases c)
    case None
    with ct assms show ?thesis by (simp add: Choices parseSpacing_def ca)
  next
    case (Some ch)
    obtain v s2 where po: "parseSpacingObject (value' ch) s1 = (v, s2)"
      by (cases "parseSpacingObject (value' ch) s1")
    from parseSpacingObject_rel[OF assms(1) ct(2) po] ct assms show ?thesis
      by (auto simp add: Choices parseSpacing_def ca Some po)
  qed
next
  case (Object ob)
  obtain v s1 where po: "parseSpacingObject (ValueObject ob) s = (v, s1)"
    by (cases "parseSpacingObject (ValueObject ob) s")
  from parseSpacingObject_rel[OF assms po] show ?thesis
    by (auto simp add: Object parseSpacing_def po)
qed (use assms in \<open>simp_all add: parseSpacing_def\<close>)

lemma shrinkPositionByChild_rel:
  assumes "drawRelation R" "R s t"
  shows "relOutcome R (shrinkPositionByChild p ch d sp s) (shrinkPositionByChild p ch d sp t)"
  unfolding shrinkPositionByChild_def
  using assms(2)
  by (simp; intro conjI impI relOutcome_andThen parseSpacing_rel[OF assms]; simp)

lemma movePositionBySpacing_rel:
  assumes "drawRelation R" "R s t"
  shows "relOutcome R (movePositionBySpacing p d sp s) (movePositionBySpacing p d sp t)"
  unfolding movePositionBySpacing_def
  by (intro relOutcome_andThen parseSpacing_rel[OF assms]) simp

lemma parseChoice_rel:
  assumes "drawRelation R" "R s t"
  shows "relOutcome R (parseChoice ch p d s) (parseChoice ch p d t)"
  unfolding parseChoice_def
proof (rule relOutcome_andThen)
  show "relOutcome R
     (case arguments ch of
        Alternatives r alts \<Rightarrow>
          (case chooseAmong alts s of
             (None, s') \<Rightarrow> Threw TypeError s'
           | (Some a, s') \<Rightarrow> Returned (map_option Shared (values' a)) s')
      | a \<Rightarrow> Returned (argumentsVerbatim a) s)
     (case arguments ch of
        Alternatives r alts \<Rightarrow>
          (case chooseAmong alts t of
             (None, s') \<Rightarrow> Threw TypeError s'
           | (Some a, s') \<Rightarrow> Returned (map_option Shared (values' a)) s')
      | a \<Rightarrow> Returned (argumentsVerbatim a) t)"
  proof (cases "arguments ch")
    case (Alternatives r alts)
    obtain c s1 where ca: "chooseAmong alts s = (c, s1)"
      by (cases "chooseAmong alts s")
    from chooseAmong_rel[OF assms ca] show ?thesis
      by (auto simp add: Alternatives ca split: option.splits)
  qed (use assms in simp_all)
next
  fix args s' t'
  assume r: "R s' t'"
  note reg = drawRelation_possibilities[OF assms(1) r]
  let ?rest = "\<lambda>w h c u.
      (let sized = ensureDirectionBoundsOnChoice (p\<lparr>width := w, height := h\<rparr>) p;
           snapped = applySnap (setLeadingEdge sized d) (snap c)
       in case applyStretch ch p (snapped, args) u of
            ((b, args1), s1) \<Rightarrow>
              (case copySchemaArguments c ch args1 s1 of
                 (args2, s2) \<Rightarrow>
                   Returned (Choice (title ch) (type ch) args2 b None) s2))"
  have rest: "relOutcome R (?rest w h c s') (?rest w h c t')" for w h c
  proof -
    let ?snapped = "applySnap (setLeadingEdge
        (ensureDirectionBoundsOnChoice (p\<lparr>width := w, height := h\<rparr>) p) d) (snap c)"
    obtain b args1 s1 where st: "applyStretch ch p (?snapped, args) s' = ((b, args1), s1)"
      by (cases "applyStretch ch p (?snapped, args) s'") auto
    from applyStretch_rel[OF assms(1) r st]
    obtain t1 where t1: "applyStretch ch p (?snapped, args) t' = ((b, args1), t1)" "R s1 t1"
      by blast
    obtain args2 s2 where cp: "copySchemaArguments c ch args1 s1 = (args2, s2)"
      by (cases "copySchemaArguments c ch args1 s1")
    from copySchemaArguments_rel[OF assms(1) t1(2) cp]
    obtain t2 where t2: "copySchemaArguments c ch args1 t1 = (args2, t2)" "R s2 t2"
      by blast
    from st t1 cp t2 show ?thesis by (simp add: Let_def)
  qed
  show "relOutcome R
          (case ensureSizingOnChoice ch (possibilities s' (title ch)) of
             None \<Rightarrow> Threw TypeError s'
           | Some (w, h) \<Rightarrow>
               (case possibilities s' (title ch) of
                  None \<Rightarrow> Threw TypeError s'
                | Some schema \<Rightarrow>
                    (case contents schema of
                       None \<Rightarrow> Threw TypeError s'
                     | Some c \<Rightarrow> ?rest w h c s')))
          (case ensureSizingOnChoice ch (possibilities t' (title ch)) of
             None \<Rightarrow> Threw TypeError t'
           | Some (w, h) \<Rightarrow>
               (case possibilities t' (title ch) of
                  None \<Rightarrow> Threw TypeError t'
                | Some schema \<Rightarrow>
                    (case contents schema of
                       None \<Rightarrow> Threw TypeError t'
                     | Some c \<Rightarrow> ?rest w h c t')))"
    using r reg rest by (auto split: option.splits)
qed

lemma parseChoiceFinal_rel:
  assumes "drawRelation R" "R s t"
  shows "relOutcome R (parseChoiceFinal c ch p d s) (parseChoiceFinal c ch p d t)"
proof -
  have "relOutcome R
      (case copySchemaArguments k ch a s of
         (args, s') \<Rightarrow> Returned (Choice (title ch) ''Known'' args b None) s')
      (case copySchemaArguments k ch a t of
         (args, s') \<Rightarrow> Returned (Choice (title ch) ''Known'' args b None) s')" for k a b
  proof -
    obtain args s1 where cp: "copySchemaArguments k ch a s = (args, s1)"
      by (cases "copySchemaArguments k ch a s")
    from copySchemaArguments_rel[OF assms cp] cp show ?thesis by auto
  qed
  with assms(2) drawRelation_possibilities[OF assms] show ?thesis
    by (simp add: parseChoiceFinal_def split: option.splits)
qed

lemma generateChild_rel:
  assumes "drawRelation R" "R s t"
  shows "relOutcome R (generateChild c p d s) (generateChild c p d t)"
  unfolding generateChild_def
  by (intro relOutcome_andThen chooseAmongPosition_rel[OF assms])
     (auto split: option.splits intro!: relOutcome_andThen parseChoice_rel[OF assms(1)])

lemma generateChildrenRandomLoop_rel:
  assumes "drawRelation R"
  shows "R s t \<Longrightarrow> relOutcome R (generateChildrenRandomLoop fuel c p d sp placed s)
     (generateChildrenRandomLoop fuel c p d sp placed t)"
proof (induction fuel arbitrary: p placed s t)
  case 0
  then show ?case by (simp add: generateChildrenRandomLoop.simps)
next
  case (Suc n)
  show ?case
    apply (subst generateChildrenRandomLoop.simps[of "Suc n" c p d sp placed s])
    apply (subst generateChildrenRandomLoop.simps[of "Suc n" c p d sp placed t])
    using Suc.prems
    apply (auto split: option.splits intro!: relOutcome_andThen generateChild_rel[OF assms]
          shrinkPositionByChild_rel[OF assms] Suc.IH)
    done
qed

lemma generateChildrenMultipleMap_rel:
  assumes "drawRelation R"
  shows "R s t \<Longrightarrow> relOutcome R (generateChildrenMultipleMap cs p d sp s)
     (generateChildrenMultipleMap cs p d sp t)"
  by (induction cs arbitrary: p s t)
     (auto intro!: relOutcome_andThen parseChoice_rel[OF assms] movePositionBySpacing_rel[OF assms])


lemma generate_rel_fuel:
  assumes R: "drawRelation R"
  shows "(\<forall>name command s t. R s t \<longrightarrow>
            relOutcome R (generate fuel name command s) (generate fuel name command t))
       \<and> (\<forall>schema p d0 s t. R s t \<longrightarrow>
            relOutcome R (generateChildren fuel schema p d0 s) (generateChildren fuel schema p d0 t))
       \<and> (\<forall>c choices p d sp s t. R s t \<longrightarrow>
            relOutcome R (generateChildrenCertainMap fuel c choices p d sp s)
              (generateChildrenCertainMap fuel c choices p d sp t))
       \<and> (\<forall>c p d sp i placed s t. R s t \<longrightarrow>
            relOutcome R (generateChildrenRepeatLoop fuel c p d sp i placed s)
              (generateChildrenRepeatLoop fuel c p d sp i placed t))"
proof (induction fuel rule: less_induct)
  case (less fuel)
  have gen: "relOutcome R (generate n name command s) (generate n name command t)"
    if "n < fuel" "R s t" for n name command s t
    using less[OF that(1)] that(2) by simp
  have rep_less: "relOutcome R (generateChildrenRepeatLoop n c p d sp i placed s)
      (generateChildrenRepeatLoop n c p d sp i placed t)"
    if "n < fuel" "R s t" for n c p d sp i placed s t
    using less[OF that(1)] that(2) by simp
  have rep: "relOutcome R (generateChildrenRepeatLoop fuel c p d sp i placed s)
      (generateChildrenRepeatLoop fuel c p d sp i placed t)"
    if "R s t" for c p d sp i placed s t
    using that
    apply (subst generateChildrenRepeatLoop.simps[of fuel c p d sp i placed s])
    apply (subst generateChildrenRepeatLoop.simps[of fuel c p d sp i placed t])
    apply (auto simp: Let_def split: nat.splits intro!: relOutcome_andThen parseChoiceFinal_rel[OF R]
        parseChoice_rel[OF R] shrinkPositionByChild_rel[OF R] gen rep_less)
    done
  have cert: "relOutcome R (generateChildrenCertainMap fuel c choices p d sp s)
      (generateChildrenCertainMap fuel c choices p d sp t)"
    if "R s t" for c choices p d sp s t
    using that
  proof (induction choices arbitrary: p s t)
    case Nil
    then show ?case by (simp add: generateChildrenCertainMap.simps)
  next
    case (Cons choice rest)
    from Cons.prems show ?case
      apply (subst generateChildrenCertainMap.simps(2)[of fuel c choice rest p d sp s])
      apply (subst generateChildrenCertainMap.simps(2)[of fuel c choice rest p d sp t])
      apply (auto split: nat.splits intro!: relOutcome_andThen parseChoiceFinal_rel[OF R]
          parseChoice_rel[OF R] shrinkPositionByChild_rel[OF R] gen Cons.IH)
      done
  qed
  have chil: "relOutcome R (generateChildren fuel schema p d0 s) (generateChildren fuel schema p d0 t)"
    if "R s t" for schema p d0 s t
    using that
    apply (subst generateChildren.simps[of fuel schema p d0 s])
    apply (subst generateChildren.simps[of fuel schema p d0 t])
    apply (auto simp: Let_def generateChildrenRandom_def generateChildrenMultiple_def
        split: option.splits
        intro!: relOutcome_andThen generateChildrenRandomLoop_rel[OF R]
          generateChildrenMultipleMap_rel[OF R] rep cert)
    done
  have "relOutcome R (generate fuel name command s) (generate fuel name command t)"
    if "R s t" for name command s t
    using that drawRelation_possibilities[OF R that]
    apply (subst generate.simps[of fuel name command s])
    apply (subst generate.simps[of fuel name command t])
    apply (auto split: option.splits intro!: chil)
    done
  with rep cert chil show ?case by simp
qed


lemma applyWrites_append: "applyWrites (ws @ ws') h = applyWrites ws' (applyWrites ws h)"
  by (induction ws arbitrary: h) auto

lemma sameSource_callRandom:
  "sameSource s t \<Longrightarrow> fst (callRandom s) = fst (callRandom t)
     \<and> sameSource (snd (callRandom s)) (snd (callRandom t))"
  unfolding sameSource_def callRandom_def
  apply (elim conjE)
  apply simp
  apply (intro conjI allI)
   apply (metis add.right_neutral)
  apply (metis add_Suc_right)
  done

lemma drawRelation_replayed: "drawRelation (replayed s0 t0)"
  unfolding drawRelation_def
proof (intro allI impI conjI)
  fix s t
  assume r: "replayed s0 t0 s t"
  then have src: "sameSource s t"
    and ws: "\<exists>ws. objects s = applyWrites ws (objects s0) \<and> objects t = applyWrites ws (objects t0)"
    and ks: "\<exists>ks. generatedCommands s = generatedCommands s0 @ ks
           \<and> generatedCommands t = generatedCommands t0 @ ks"
    by (simp_all add: replayed_def)
  from src show "possibilities s = possibilities t"
    by (simp add: sameSource_def)
  from sameSource_callRandom[OF src] show "fst (callRandom s) = fst (callRandom t)"
    by simp
  from sameSource_callRandom[OF src] ws ks
  show "replayed s0 t0 (snd (callRandom s)) (snd (callRandom t))"
    by (simp add: replayed_def) (simp add: callRandom_def)
  fix a k v
  from ws obtain ws where w: "objects s = applyWrites ws (objects s0)"
      "objects t = applyWrites ws (objects t0)"
    by blast
  have "objects (writeProperty a k v s) = applyWrites (ws @ [(a, k, v)]) (objects s0)"
      "objects (writeProperty a k v t) = applyWrites (ws @ [(a, k, v)]) (objects t0)"
    by (simp_all add: writeProperty_def applyWrites_append w)
  then have "\<exists>ws. objects (writeProperty a k v s) = applyWrites ws (objects s0)
      \<and> objects (writeProperty a k v t) = applyWrites ws (objects t0)"
    by blast
  moreover from src have "sameSource (writeProperty a k v s) (writeProperty a k v t)"
    by (simp add: sameSource_def writeProperty_def)
  moreover from ks have "\<exists>ks. generatedCommands (writeProperty a k v s) = generatedCommands s0 @ ks
           \<and> generatedCommands (writeProperty a k v t) = generatedCommands t0 @ ks"
    by (simp add: writeProperty_def)
  ultimately show "replayed s0 t0 (writeProperty a k v s) (writeProperty a k v t)"
    by (simp add: replayed_def)
qed

lemma replayed_push:
  "replayed s0 t0 s t \<Longrightarrow> replayed s0 t0 (s\<lparr>generatedCommands := generatedCommands s @ [c]\<rparr>)
     (t\<lparr>generatedCommands := generatedCommands t @ [c]\<rparr>)"
  by (auto simp add: replayed_def sameSource_def)

lemma replayed_start: "sameSource s t \<Longrightarrow> replayed s t s t"
  unfolding replayed_def
  by (intro conjI exI[of _ "[]"]) simp_all

lemma replayed_sameInputs:
  "objects s0 = objects t0 \<Longrightarrow> generatedCommands s0 = generatedCommands t0
     \<Longrightarrow> replayed s0 t0 s t \<Longrightarrow> sameInputs s t"
  by (auto simp add: replayed_def sameInputs_def)

lemma relOutcome_mono:
  "relOutcome R a b \<Longrightarrow> (\<And>s t. R s t \<Longrightarrow> R' s t) \<Longrightarrow> relOutcome R' a b"
  by (cases a) auto

lemma drawRelation_accumulator: "drawRelation (\<lambda>s t. t = s\<lparr>generatedCommands := a\<rparr>)"
  by (simp add: drawRelation_def callRandom_def writeProperty_def)


lemma generateFull_rel_fuel:
  assumes R: "drawRelation R"
    and push: "\<And>s t c. R s t \<Longrightarrow> R (s\<lparr>generatedCommands := generatedCommands s @ [c]\<rparr>)
                 (t\<lparr>generatedCommands := generatedCommands t @ [c]\<rparr>)"
  shows "(\<forall>node s t. R s t \<longrightarrow>
            relOutcome R (generateFull fuel node s) (generateFull fuel node t))
       \<and> (\<forall>cs s t. R s t \<longrightarrow>
            relOutcome R (generateFullLoop fuel cs s) (generateFullLoop fuel cs t))"
proof (induction fuel rule: less_induct)
  case (less fuel)
  have full_less: "relOutcome R (generateFull n node s) (generateFull n node t)"
    if "n < fuel" "R s t" for n node s t
    using less[OF that(1)] that(2) by simp
  have loop: "relOutcome R (generateFullLoop fuel cs s) (generateFullLoop fuel cs t)"
    if "R s t" for cs s t
    using that
  proof (induction cs arbitrary: s t)
    case Nil
    then show ?case by (simp add: generateFullLoop.simps)
  next
    case (Cons child rest)
    consider (known) "ctype child = ''Known''" | (random) "ctype child \<noteq> ''Known''" "ctype child = ''Random''"
      | (other) "ctype child \<noteq> ''Known''" "ctype child \<noteq> ''Random''"
      by blast
    then show ?case
    proof cases
      case known
      with Cons.IH[OF push[OF Cons.prems, of child]] show ?thesis
        by (simp add: generateFullLoop.simps)
    next
      case random
      show ?thesis
      proof (cases fuel)
        case 0
        with random show ?thesis by (simp add: generateFullLoop.simps)
      next
        case (Suc n)
        then have "n < fuel" by simp
        from full_less[OF this Cons.prems, of child] random Suc show ?thesis
          by (auto simp add: generateFullLoop.simps intro!: relOutcome_andThen Cons.IH[unfolded Suc])
      qed
    next
      case other
      with Cons.IH[OF Cons.prems] show ?thesis
        by (simp add: generateFullLoop.simps)
    qed
  qed
  have "relOutcome R (generateFull fuel node s) (generateFull fuel node t)"
    if "R s t" for node s t
    using that generate_rel_fuel[OF R, of fuel]
    apply (subst generateFull.simps[of fuel node s])
    apply (subst generateFull.simps[of fuel node t])
    apply (auto split: option.splits intro!: relOutcome_andThen loop)
    done
  with loop show ?case by simp
qed

section \<open>generateFull appends the Known nodes depth first\<close>

declare knownDepthFirst.simps [simp del]
declare knownDepthFirstChildren.simps [simp del]

lemma accumulates_simps [simp]:
  "accumulates OutOfFuel g a \<longleftrightarrow> g = OutOfFuel"
  "accumulates (Threw e s1) g a \<longleftrightarrow> (\<exists>s2. g = Threw e s2)"
  "accumulates (Returned ks s1) g a \<longleftrightarrow> g = Returned () (s1\<lparr>generatedCommands := a @ ks\<rparr>)"
  by (simp_all add: accumulates_def)

lemma generate_accumulator:
  "relOutcome (\<lambda>s t. t = s\<lparr>generatedCommands := a\<rparr>) (generate fuel name command s)
     (generate fuel name command (s\<lparr>generatedCommands := a\<rparr>))"
  using generate_rel_fuel[OF drawRelation_accumulator, of a fuel] by simp

lemma depth_first_fuel:
  "(\<forall>node s a. accumulates (knownDepthFirst fuel node s)
        (generateFull fuel node (s\<lparr>generatedCommands := a\<rparr>)) a)
   \<and> (\<forall>cs s a. accumulates (knownDepthFirstChildren fuel cs s)
        (generateFullLoop fuel cs (s\<lparr>generatedCommands := a\<rparr>)) a)"
proof (induction fuel rule: less_induct)
  case (less fuel)
  have full_less: "accumulates (knownDepthFirst n node s)
        (generateFull n node (s\<lparr>generatedCommands := a\<rparr>)) a"
    if "n < fuel" for n node s a
    using less[OF that] by simp
  have loop: "accumulates (knownDepthFirstChildren fuel cs s)
        (generateFullLoop fuel cs (s\<lparr>generatedCommands := a\<rparr>)) a" for cs s a
  proof (induction cs arbitrary: s a)
    case Nil
    show ?case by (simp add: generateFullLoop.simps knownDepthFirstChildren.simps)
  next
    case (Cons child rest)
    consider (known) "ctype child = ''Known''" | (random) "ctype child \<noteq> ''Known''" "ctype child = ''Random''"
      | (other) "ctype child \<noteq> ''Known''" "ctype child \<noteq> ''Random''"
      by blast
    then show ?case
    proof cases
      case known
      with Cons.IH[of s "a @ [child]"] show ?thesis
        by (cases "knownDepthFirstChildren fuel rest s")
           (simp_all add: generateFullLoop.simps knownDepthFirstChildren.simps)
    next
      case random
      show ?thesis
      proof (cases fuel)
        case 0
        with random show ?thesis
          by (simp add: generateFullLoop.simps knownDepthFirstChildren.simps)
      next
        case (Suc n)
        then have "n < fuel" by simp
        note first = full_less[OF this, of child s a]
        show ?thesis
        proof (cases "knownDepthFirst n child s")
          case (Returned ks s1)
          with first Cons.IH[of s1 "a @ ks"] random Suc show ?thesis
            by (cases "knownDepthFirstChildren fuel rest s1")
               (simp_all add: generateFullLoop.simps knownDepthFirstChildren.simps)
        qed (use first random Suc in
              \<open>auto simp add: generateFullLoop.simps knownDepthFirstChildren.simps\<close>)
      qed
    next
      case other
      with Cons.IH[of s a] show ?thesis
        by (simp add: generateFullLoop.simps knownDepthFirstChildren.simps)
    qed
  qed
  have "accumulates (knownDepthFirst fuel node s)
        (generateFull fuel node (s\<lparr>generatedCommands := a\<rparr>)) a" for node s a
  proof (cases "generate fuel (ctitle node) (box node) s")
    case (Returned g s1)
    with generate_accumulator[of a fuel "ctitle node" "box node" s]
    have "generate fuel (ctitle node) (box node) (s\<lparr>generatedCommands := a\<rparr>)
        = Returned g (s1\<lparr>generatedCommands := a\<rparr>)"
      by simp
    with Returned loop[of "gchildren (the g)" s1 a] show ?thesis
      by (cases g) (simp_all add: generateFull.simps knownDepthFirst.simps)
  qed (use generate_accumulator[of a fuel "ctitle node" "box node" s] in
        \<open>auto simp add: generateFull.simps knownDepthFirst.simps\<close>)
  with loop show ?case by simp
qed


text \<open>
  C5: \<^verbatim>\<open>generateFull\<close> ends as the depth-first walk of the node does, and when
  the walk returns, the accumulator is the accumulator of the call followed by the
  \<^verbatim>\<open>"Known"\<close> nodes of the walk in its order: the \<^verbatim>\<open>"Known"\<close> children are appended
  in the order of the result, the \<^verbatim>\<open>"Known"\<close> descendants of a \<^verbatim>\<open>"Random"\<close> child
  come where that child stands, and a child of any other type adds nothing and raises
  nothing.
\<close>

theorem generateFull_depth_first:
  "(case knownDepthFirst fuel node s of
      OutOfFuel \<Rightarrow> generateFull fuel node s = OutOfFuel
    | Threw e s1 \<Rightarrow> (\<exists>s2. generateFull fuel node s = Threw e s2)
    | Returned ks s1 \<Rightarrow>
        generateFull fuel node s
          = Returned () (s1\<lparr>generatedCommands := generatedCommands s @ ks\<rparr>))"
  using depth_first_fuel[of fuel, THEN conjunct1, rule_format, of node s "generatedCommands s"]
  by (simp add: accumulates_def)

lemma knownDepthFirst_world:
  "possibilities s = worldRegistry \<Longrightarrow>
   knownDepthFirst 1 worldRoot s = Returned [nodeAt ''A'' 0 40, nodeAt ''A'' 40 40, nodeAt ''B'' 80 60] s"
  by (simp add: knownDepthFirst.simps knownDepthFirstChildren.simps generate_simps parse_defs
      setContents_def worldRegistry_def rowRegistry_def emptyContents_def typedChild_def worldRoot_def nodeAt_def)

text \<open>
  The world: its row is expanded where it stands, between the terminal before it and
  the skipped child after it.
\<close>

theorem generateFull_depth_first_witness:
  "generateFull 1 worldRoot (exampleSeedr worldRegistry 0)
     = Returned () ((exampleSeedr worldRegistry 0)
         \<lparr>generatedCommands := [nodeAt ''A'' 0 40, nodeAt ''A'' 40 40, nodeAt ''B'' 80 60]\<rparr>)"
  using generateFull_depth_first[of 1 worldRoot "exampleSeedr worldRegistry 0"]
    knownDepthFirst_world[of "exampleSeedr worldRegistry 0"]
  by (simp add: exampleSeedr_def)

section \<open>Determinism\<close>

text \<open>The mix, evaluated: what is placed depends on the numbers drawn.\<close>

lemma mix_child_first:
  assumes "possibilities s = mixRegistry" "random s (drawn s) = 1/4"
  shows "generateChild mixContents
           \<lparr>width = 100, height = 10, top' = 10, right = 100, bottom = 0, left = 0\<rparr> ''right'' s
     = Returned (Some (nodeAt ''A'' 0 40)) (s\<lparr>drawn := Suc (drawn s)\<rparr>)"
  using assms
  apply (simp add: generateChild_def chooseAmongPosition_def mixRegistry_def mixContents_def rowRegistry_def
      typedChild_def doesChoiceFit_def emptyContents_def)
  apply (simp add: chooseAmong_def randomPercentage_def callRandom_def)
  apply (simp add: parseChoice_def argumentsVerbatim_def ensureSizingOnChoice_def mixRegistry_def rowRegistry_def emptyContents_def
      applyStretch_def copySchemaArguments_def)
  apply (simp add: ensureDirectionBoundsOnChoice_def setLeadingEdge_def applySnap_def nodeAt_def)
  done

lemma mix_child_second:
  assumes "possibilities s = mixRegistry" "random s (drawn s) = 3/4"
  shows "generateChild mixContents
           \<lparr>width = 100, height = 10, top' = 10, right = 100, bottom = 0, left = 40\<rparr> ''right'' s
     = Returned (Some (nodeAt ''B'' 40 60)) (s\<lparr>drawn := Suc (drawn s)\<rparr>)"
  using assms
  apply (simp add: generateChild_def chooseAmongPosition_def mixRegistry_def mixContents_def rowRegistry_def
      typedChild_def doesChoiceFit_def emptyContents_def)
  apply (simp add: chooseAmong_def randomPercentage_def callRandom_def)
  apply (simp add: parseChoice_def argumentsVerbatim_def ensureSizingOnChoice_def mixRegistry_def rowRegistry_def emptyContents_def
      applyStretch_def copySchemaArguments_def)
  apply (simp add: ensureDirectionBoundsOnChoice_def setLeadingEdge_def applySnap_def nodeAt_def)
  done

lemma mix_generate:
  assumes "possibilities s = mixRegistry" "random s (drawn s) = 1/4" "random s (Suc (drawn s)) = 3/4"
  shows "generate 2 ''Mix'' exampleBox s
     = Returned (Some (Generated 10 100 0 0 [nodeAt ''A'' 0 40, nodeAt ''B'' 40 60]))
         (s\<lparr>drawn := drawn s + 2\<rparr>)"
proof -
  let ?q = "\<lparr>width = 100, height = 10, top' = 10, right = 100, bottom = 0, left = 0\<rparr>"
  let ?s1 = "s\<lparr>drawn := Suc (drawn s)\<rparr>"
  have c: "limit mixContents = None" "mode mixContents = ''Random''"
      "direction mixContents = ''right''" "spacing mixContents = Undefined"
    by (simp_all add: mixContents_def emptyContents_def)
  have one: "generateChild mixContents ?q ''right'' s = Returned (Some (nodeAt ''A'' 0 40)) ?s1"
    by (rule mix_child_first[OF assms(1,2)])
  have two: "generateChild mixContents \<lparr>width = 100, height = 10, top' = 10, right = 100, bottom = 0, left = 40\<rparr> ''right'' ?s1
      = Returned (Some (nodeAt ''B'' 40 60)) (?s1\<lparr>drawn := Suc (drawn ?s1)\<rparr>)"
    using mix_child_second[of ?s1] assms by simp
  have "generateChildrenRandom 2 mixContents ?q ''right'' (Number 0) s
      = Returned (Some [nodeAt ''A'' 0 40, nodeAt ''B'' 40 60]) (s\<lparr>drawn := drawn s + 2\<rparr>)"
    unfolding generateChildrenRandom_def
    apply (subst generateChildrenRandomLoop.simps)
    apply (simp add: numeral_2_eq_2 positionIsNotEmpty_def one c)
    apply (simp add: shrinkPositionByChild_def parseSpacing_def nodeAt_def[of "''A''"])
    apply (subst generateChildrenRandomLoop.simps)
    apply (simp add: positionIsNotEmpty_def two c)
    apply (simp add: shrinkPositionByChild_def parseSpacing_def nodeAt_def[of "''B''"])
    apply (subst generateChildrenRandomLoop.simps)
    apply (simp add: positionIsNotEmpty_def)
    done
  moreover have "possibilities s ''Mix'' = Some \<lparr>width = 100, height = 10, contents = Some mixContents\<rparr>"
    using assms(1) by (simp add: mixRegistry_def)
  moreover have "getPositionExtremes (Some [nodeAt ''A'' 0 40, nodeAt ''B'' 40 60])
      = Some (Generated 10 100 0 0 [nodeAt ''A'' 0 40, nodeAt ''B'' 40 60])"
    by (simp add: getPositionExtremes_def nodeAt_def)
  ultimately show ?thesis
    by (simp add: generate.simps generateChildren.simps c objectCopy_def objectMerge_def exampleBox_def)
qed

lemma mix_full:
  assumes "possibilities s = mixRegistry" "random s (drawn s) = 1/4" "random s (Suc (drawn s)) = 3/4"
  shows "generateFull 2 mixRoot s
     = Returned () (s\<lparr>drawn := drawn s + 2,
          generatedCommands := generatedCommands s @ [nodeAt ''A'' 0 40, nodeAt ''B'' 40 60]\<rparr>)"
  by (simp add: generateFull.simps mixRoot_def mix_generate[OF assms])
     (simp add: generateFullLoop.simps nodeAt_def)

lemma mix_child_large:
  assumes "possibilities s = mixRegistry" "random s (drawn s) = 3/4"
  shows "generateChild mixContents
           \<lparr>width = 100, height = 10, top' = 10, right = 100, bottom = 0, left = 0\<rparr> ''right'' s
     = Returned (Some (nodeAt ''B'' 0 60)) (s\<lparr>drawn := Suc (drawn s)\<rparr>)"
  using assms
  apply (simp add: generateChild_def chooseAmongPosition_def mixRegistry_def mixContents_def rowRegistry_def
      typedChild_def doesChoiceFit_def emptyContents_def)
  apply (simp add: chooseAmong_def randomPercentage_def callRandom_def)
  apply (simp add: parseChoice_def argumentsVerbatim_def ensureSizingOnChoice_def mixRegistry_def rowRegistry_def emptyContents_def
      applyStretch_def copySchemaArguments_def)
  apply (simp add: ensureDirectionBoundsOnChoice_def setLeadingEdge_def applySnap_def nodeAt_def)
  done

lemma mix_child_last:
  assumes "possibilities s = mixRegistry"
  shows "generateChild mixContents
           \<lparr>width = 100, height = 10, top' = 10, right = 100, bottom = 0, left = 60\<rparr> ''right'' s
     = Returned (Some (nodeAt ''A'' 60 40)) s"
  using assms
  apply (simp add: generateChild_def chooseAmongPosition_def mixRegistry_def mixContents_def rowRegistry_def
      typedChild_def doesChoiceFit_def emptyContents_def)
  apply (simp add: chooseAmong_def)
  apply (simp add: parseChoice_def argumentsVerbatim_def ensureSizingOnChoice_def mixRegistry_def rowRegistry_def emptyContents_def
      applyStretch_def copySchemaArguments_def)
  apply (simp add: ensureDirectionBoundsOnChoice_def setLeadingEdge_def applySnap_def nodeAt_def)
  done

lemma mix_full_large:
  assumes "possibilities s = mixRegistry" "random s (drawn s) = 3/4"
  shows "generateFull 2 mixRoot s
     = Returned () (s\<lparr>drawn := drawn s + 1,
          generatedCommands := generatedCommands s @ [nodeAt ''B'' 0 60, nodeAt ''A'' 60 40]\<rparr>)"
proof -
  let ?q = "\<lparr>width = 100, height = 10, top' = 10, right = 100, bottom = 0, left = 0\<rparr>"
  let ?s1 = "s\<lparr>drawn := Suc (drawn s)\<rparr>"
  have c: "limit mixContents = None" "mode mixContents = ''Random''"
      "direction mixContents = ''right''" "spacing mixContents = Undefined"
    by (simp_all add: mixContents_def emptyContents_def)
  have one: "generateChild mixContents ?q ''right'' s = Returned (Some (nodeAt ''B'' 0 60)) ?s1"
    by (rule mix_child_large[OF assms])
  have two: "generateChild mixContents \<lparr>width = 100, height = 10, top' = 10, right = 100, bottom = 0, left = 60\<rparr> ''right'' ?s1
      = Returned (Some (nodeAt ''A'' 60 40)) ?s1"
    using mix_child_last[of ?s1] assms by simp
  have "generateChildrenRandom 2 mixContents ?q ''right'' (Number 0) s
      = Returned (Some [nodeAt ''B'' 0 60, nodeAt ''A'' 60 40]) (s\<lparr>drawn := drawn s + 1\<rparr>)"
    unfolding generateChildrenRandom_def
    apply (subst generateChildrenRandomLoop.simps)
    apply (simp add: numeral_2_eq_2 positionIsNotEmpty_def one c)
    apply (simp add: shrinkPositionByChild_def parseSpacing_def nodeAt_def[of "''B''"])
    apply (subst generateChildrenRandomLoop.simps)
    apply (simp add: positionIsNotEmpty_def two c)
    apply (simp add: shrinkPositionByChild_def parseSpacing_def nodeAt_def[of "''A''"])
    apply (subst generateChildrenRandomLoop.simps)
    apply (simp add: positionIsNotEmpty_def)
    done
  moreover have "possibilities s ''Mix'' = Some \<lparr>width = 100, height = 10, contents = Some mixContents\<rparr>"
    using assms(1) by (simp add: mixRegistry_def)
  moreover have "getPositionExtremes (Some [nodeAt ''B'' 0 60, nodeAt ''A'' 60 40])
      = Some (Generated 10 100 0 0 [nodeAt ''B'' 0 60, nodeAt ''A'' 60 40])"
    by (simp add: getPositionExtremes_def nodeAt_def)
  ultimately have "generate 2 ''Mix'' exampleBox s
     = Returned (Some (Generated 10 100 0 0 [nodeAt ''B'' 0 60, nodeAt ''A'' 60 40]))
         (s\<lparr>drawn := drawn s + 1\<rparr>)"
    by (simp add: generate.simps generateChildren.simps c objectCopy_def objectMerge_def exampleBox_def)
  then show ?thesis
    by (simp add: generateFull.simps mixRoot_def)
       (simp add: generateFullLoop.simps nodeAt_def)
qed

text \<open>
  C7: let two instances have the same registry, and let their random sources return
  the same sequence of numbers from the call on. Everything else may differ: what
  the sources returned before, the number of draws made, the record of the callback,
  the accumulator, and the properties that the \<^verbatim>\<open>arguments\<close> objects of the child
  references hold (which earlier calls may have written). Then, for the same name and
  box, \<^verbatim>\<open>generate\<close> has the same outcome on both: the same tree, with the same
  \<^verbatim>\<open>arguments\<close> objects at its nodes, or the same error. For the same node,
  \<^verbatim>\<open>generateFull\<close> has the same outcome on both and appends the same commands to
  both accumulators. Both calls make the same assignments to the \<^verbatim>\<open>arguments\<close>
  objects, in the same order, and leave sources that are again the same. So when the
  objects hold the same properties and the accumulators the same commands before the
  call, they do after it: the trees and the accumulators are the same with all they
  carry.
\<close>

theorem generateFull_deterministic:
  assumes "sameSource s t"
  shows "relOutcome (replayed s t) (generate fuel name command s) (generate fuel name command t)
       \<and> relOutcome (replayed s t) (generateFull fuel node s) (generateFull fuel node t)
       \<and> (objects s = objects t \<and> generatedCommands s = generatedCommands t \<longrightarrow>
            relOutcome sameInputs (generate fuel name command s) (generate fuel name command t)
            \<and> relOutcome sameInputs (generateFull fuel node s) (generateFull fuel node t))"
proof -
  note start = replayed_start[OF assms]
  have tree: "relOutcome (replayed s t) (generate fuel name command s) (generate fuel name command t)"
    using generate_rel_fuel[OF drawRelation_replayed, of s t fuel] start by simp
  have full: "relOutcome (replayed s t) (generateFull fuel node s) (generateFull fuel node t)"
    using generateFull_rel_fuel[OF drawRelation_replayed replayed_push, of s t fuel] start by simp
  have "relOutcome sameInputs (generate fuel name command s) (generate fuel name command t)
      \<and> relOutcome sameInputs (generateFull fuel node s) (generateFull fuel node t)"
    if "objects s = objects t" "generatedCommands s = generatedCommands t"
    using relOutcome_mono[OF tree replayed_sameInputs[OF that]]
      relOutcome_mono[OF full replayed_sameInputs[OF that]]
    by simp
  with tree full show ?thesis by simp
qed

text \<open>
  The mix on the two instances with different pasts and stores: both place the
  terminal 40 wide and then the terminal 60 wide, after the draws 1/4 and 3/4, and
  append them to their accumulators. (On a source that returns 3/4 at once, the
  terminal 60 wide comes first.)
\<close>

theorem generateFull_deterministic_witness:
  "relOutcome (replayed mixFresh mixUsed) (generateFull 2 mixRoot mixFresh) (generateFull 2 mixRoot mixUsed)
   \<and> generateFull 2 mixRoot mixFresh
       = Returned () (mixFresh\<lparr>drawn := 2, generatedCommands := [nodeAt ''A'' 0 40, nodeAt ''B'' 40 60]\<rparr>)
   \<and> generateFull 2 mixRoot mixUsed
       = Returned () (mixUsed\<lparr>drawn := 5,
           generatedCommands := [rowA, nodeAt ''A'' 0 40, nodeAt ''B'' 40 60]\<rparr>)
   \<and> generateFull 2 mixRoot (exampleSeedr mixRegistry (3/4))
       = Returned () ((exampleSeedr mixRegistry (3/4))\<lparr>drawn := 1,
           generatedCommands := [nodeAt ''B'' 0 60, nodeAt ''A'' 60 40]\<rparr>)"
proof -
  have "sameSource mixFresh mixUsed"
    by (simp add: sameSource_def mixFresh_def mixUsed_def exampleSeedr_def)
  from generateFull_deterministic[OF this, of 2 "''Mix''" exampleBox mixRoot]
  have "relOutcome (replayed mixFresh mixUsed) (generateFull 2 mixRoot mixFresh)
      (generateFull 2 mixRoot mixUsed)"
    by simp
  moreover have "generateFull 2 mixRoot mixFresh
       = Returned () (mixFresh\<lparr>drawn := 2, generatedCommands := [nodeAt ''A'' 0 40, nodeAt ''B'' 40 60]\<rparr>)"
    using mix_full[of mixFresh] by (simp add: mixFresh_def exampleSeedr_def)
  moreover have "generateFull 2 mixRoot mixUsed
       = Returned () (mixUsed\<lparr>drawn := 5,
           generatedCommands := [rowA, nodeAt ''A'' 0 40, nodeAt ''B'' 40 60]\<rparr>)"
    using mix_full[of mixUsed] by (simp add: mixUsed_def exampleSeedr_def)
  moreover have "generateFull 2 mixRoot (exampleSeedr mixRegistry (3/4))
       = Returned () ((exampleSeedr mixRegistry (3/4))\<lparr>drawn := 1,
           generatedCommands := [nodeAt ''B'' 0 60, nodeAt ''A'' 60 40]\<rparr>)"
    using mix_full_large[of "exampleSeedr mixRegistry (3/4)"] by (simp add: exampleSeedr_def)
  ultimately show ?thesis by simp
qed

section \<open>Repeat mode\<close>

text \<open>One turn of the loop on a child reference that is placed as it is parsed.\<close>

lemma generateChildrenRepeatLoop_turn:
  assumes "positionIsNotEmpty q d" "i < length (children c)"
    and "(if type (children c ! i) = ''Final'' then parseChoiceFinal c (children c ! i) q d s
          else parseChoice (children c ! i) q d s) = Returned child s2"
    and "ctype child = ''Known''"
  shows "generateChildrenRepeatLoop (Suc n) c q d sp i placed s =
     (if choiceFitsPosition (box child) q then
        andThen (shrinkPositionByChild q child d sp s2)
          (\<lambda>q' s3. generateChildrenRepeatLoop n c q' d sp
             (if Suc i \<ge> length (children c) then 0 else Suc i) (placed @ [child]) s3)
      else Returned (placed, q, i) s2)"
  using assms
  by (subst generateChildrenRepeatLoop.simps) (auto simp add: Let_def)

text \<open>The tile, parsed at any position, and a turn of the loop in which it fits.\<close>

lemma tile_parse:
  "possibilities s = tileRegistry \<Longrightarrow>
   parseChoice (typedChild ''Tile'' ''Known'') q d s
     = Returned (Choice ''Tile'' ''Known'' None (setLeadingEdge (q\<lparr>width := 30, height := 10\<rparr>) d) None) s"
  by (simp add: parseChoice_def typedChild_def argumentsVerbatim_def ensureSizingOnChoice_def
      tileRegistry_def emptyContents_def applyStretch_def copySchemaArguments_def
      ensureDirectionBoundsOnChoice_def applySnap_def)

lemma tile_turn:
  assumes "possibilities s = tileRegistry" "positionIsNotEmpty q d"
    "30 \<le> right q - left q" "10 \<le> top' q - bottom q"
    "shrinkPositionByChild q (Choice ''Tile'' ''Known'' None (setLeadingEdge (q\<lparr>width := 30, height := 10\<rparr>) d) None)
       d (Number 0) s = Returned q' s"
  shows "generateChildrenRepeatLoop (Suc n) (tileRepeat d) q d (Number 0) 0 placed s
     = generateChildrenRepeatLoop n (tileRepeat d) q' d (Number 0) 0
         (placed @ [Choice ''Tile'' ''Known'' None (setLeadingEdge (q\<lparr>width := 30, height := 10\<rparr>) d) None]) s"
proof -
  let ?child = "Choice ''Tile'' ''Known'' None (setLeadingEdge (q\<lparr>width := 30, height := 10\<rparr>) d) None"
  have i: "0 < length (children (tileRepeat d))" "children (tileRepeat d) ! 0 = typedChild ''Tile'' ''Known''"
    by (simp_all add: tileRepeat_def)
  have pc: "(if type (children (tileRepeat d) ! 0) = ''Final''
       then parseChoiceFinal (tileRepeat d) (children (tileRepeat d) ! 0) q d s
       else parseChoice (children (tileRepeat d) ! 0) q d s) = Returned ?child s"
    using tile_parse[OF assms(1), of q d] by (simp add: i(2)) (simp add: typedChild_def)
  have fit: "choiceFitsPosition (box ?child) q"
    using assms(3,4) by (simp add: choiceFitsPosition_def doesChoiceFit_def setLeadingEdge_def)
  from generateChildrenRepeatLoop_turn[OF assms(2) i(1) pc, of n "Number 0" placed] fit assms(5)
  show ?thesis by (simp add: tileRepeat_def)
qed

text \<open>
  Leftwards the loop never ends: \<^verbatim>\<open>parseChoice\<close> puts the left edge of the tile at
  \<open>right + width\<close>, outside the position; the tile passes the test of fit, which
  looks at its width and height only; and \<^verbatim>\<open>shrinkPositionByChild\<close> moves the right
  edge of the position to that left edge, 30 further out at each turn.
\<close>

lemma tile_left_forever:
  assumes "possibilities s = tileRegistry"
  shows "left q = 0 \<Longrightarrow> bottom q = 0 \<Longrightarrow> top' q = 10 \<Longrightarrow> 100 \<le> right q
    \<Longrightarrow> generateChildrenRepeatLoop fuel (tileRepeat ''left'') q ''left'' (Number 0) 0 placed s = OutOfFuel"
proof (induction fuel arbitrary: q placed)
  case 0
  then show ?case
    by (subst generateChildrenRepeatLoop.simps) (simp add: positionIsNotEmpty_def)
next
  case (Suc n)
  have "generateChildrenRepeatLoop n (tileRepeat ''left'') (q\<lparr>right := right q + 30\<rparr>) ''left'' (Number 0) 0
      (placed @ [Choice ''Tile'' ''Known'' None (setLeadingEdge (q\<lparr>width := 30, height := 10\<rparr>) ''left'') None]) s
      = OutOfFuel"
    using Suc.prems by (intro Suc.IH) simp_all
  moreover have "generateChildrenRepeatLoop (Suc n) (tileRepeat ''left'') q ''left'' (Number 0) 0 placed s
     = generateChildrenRepeatLoop n (tileRepeat ''left'') (q\<lparr>right := right q + 30\<rparr>) ''left'' (Number 0) 0
         (placed @ [Choice ''Tile'' ''Known'' None (setLeadingEdge (q\<lparr>width := 30, height := 10\<rparr>) ''left'') None]) s"
    using Suc.prems
    by (intro tile_turn[OF assms])
       (simp_all add: positionIsNotEmpty_def shrinkPositionByChild_def parseSpacing_def setLeadingEdge_def)
  ultimately show ?case by simp
qed

text \<open>Downwards likewise: the bottom edge of the tile is put at \<open>top + height\<close>.\<close>

lemma tile_bottom_forever:
  assumes "possibilities s = tileRegistry"
  shows "left q = 0 \<Longrightarrow> right q = 100 \<Longrightarrow> bottom q = 0 \<Longrightarrow> 10 \<le> top' q
    \<Longrightarrow> generateChildrenRepeatLoop fuel (tileRepeat ''bottom'') q ''bottom'' (Number 0) 0 placed s = OutOfFuel"
proof (induction fuel arbitrary: q placed)
  case 0
  then show ?case
    by (subst generateChildrenRepeatLoop.simps) (simp add: positionIsNotEmpty_def)
next
  case (Suc n)
  have "generateChildrenRepeatLoop n (tileRepeat ''bottom'') (q\<lparr>top' := top' q + 10\<rparr>) ''bottom'' (Number 0) 0
      (placed @ [Choice ''Tile'' ''Known'' None (setLeadingEdge (q\<lparr>width := 30, height := 10\<rparr>) ''bottom'') None]) s
      = OutOfFuel"
    using Suc.prems by (intro Suc.IH) simp_all
  moreover have "generateChildrenRepeatLoop (Suc n) (tileRepeat ''bottom'') q ''bottom'' (Number 0) 0 placed s
     = generateChildrenRepeatLoop n (tileRepeat ''bottom'') (q\<lparr>top' := top' q + 10\<rparr>) ''bottom'' (Number 0) 0
         (placed @ [Choice ''Tile'' ''Known'' None (setLeadingEdge (q\<lparr>width := 30, height := 10\<rparr>) ''bottom'') None]) s"
    using Suc.prems
    by (intro tile_turn[OF assms])
       (simp_all add: positionIsNotEmpty_def shrinkPositionByChild_def parseSpacing_def setLeadingEdge_def)
  ultimately show ?case by simp
qed

text \<open>Rightwards, on the same tiles and box, three tiles are placed and the loop ends.\<close>

lemma tile_right_run:
  "generateChildrenRepeat 4 (tileRepeat ''right'') exampleBox ''right'' (Number 0) (exampleSeedr tileRegistry 0)
     = Returned [tileAt 0, tileAt 30, tileAt 60] (exampleSeedr tileRegistry 0)"
proof -
  let ?s = "exampleSeedr tileRegistry 0"
  have reg: "possibilities ?s = tileRegistry" by (simp add: exampleSeedr_def)
  have t: "Choice ''Tile'' ''Known'' None
      (setLeadingEdge (\<lparr>width = w, height = h, top' = 10, right = 100, bottom = 0, left = x\<rparr>\<lparr>width := 30, height := 10\<rparr>) ''right'') None
      = tileAt x" for w h x
    by (simp add: setLeadingEdge_def tileAt_def)
  have "generateChildrenRepeatLoop 4 (tileRepeat ''right'') exampleBox ''right'' (Number 0) 0 [] ?s
      = generateChildrenRepeatLoop 3 (tileRepeat ''right'') (exampleBox\<lparr>left := 30\<rparr>) ''right'' (Number 0) 0 [tileAt 0] ?s"
    using tile_turn[OF reg, of exampleBox "''right''" "exampleBox\<lparr>left := 30\<rparr>" 3 "[]"]
    by (simp add: positionIsNotEmpty_def shrinkPositionByChild_def parseSpacing_def exampleBox_def t
        setLeadingEdge_def tileAt_def)
  also have "\<dots> = generateChildrenRepeatLoop 2 (tileRepeat ''right'') (exampleBox\<lparr>left := 60\<rparr>) ''right'' (Number 0) 0
        [tileAt 0, tileAt 30] ?s"
    using tile_turn[OF reg, of "exampleBox\<lparr>left := 30\<rparr>" "''right''" "exampleBox\<lparr>left := 60\<rparr>" 2 "[tileAt 0]"]
    by (simp add: positionIsNotEmpty_def shrinkPositionByChild_def parseSpacing_def exampleBox_def
        setLeadingEdge_def tileAt_def numeral_3_eq_3)
  also have "\<dots> = generateChildrenRepeatLoop 1 (tileRepeat ''right'') (exampleBox\<lparr>left := 90\<rparr>) ''right'' (Number 0) 0
        [tileAt 0, tileAt 30, tileAt 60] ?s"
    using tile_turn[OF reg, of "exampleBox\<lparr>left := 60\<rparr>" "''right''" "exampleBox\<lparr>left := 90\<rparr>" 1 "[tileAt 0, tileAt 30]"]
    by (simp add: positionIsNotEmpty_def shrinkPositionByChild_def parseSpacing_def exampleBox_def
        setLeadingEdge_def tileAt_def numeral_2_eq_2)
  also have "\<dots> = Returned ([tileAt 0, tileAt 30, tileAt 60], exampleBox\<lparr>left := 90\<rparr>, 0) ?s"
    using tile_parse[OF reg, of "exampleBox\<lparr>left := 90\<rparr>" "''right''"]
    by (subst generateChildrenRepeatLoop.simps)
       (simp add: positionIsNotEmpty_def exampleBox_def tileRepeat_def typedChild_def
          choiceFitsPosition_def doesChoiceFit_def setLeadingEdge_def)
  finally show ?thesis
    by (simp add: generateChildrenRepeat_def)
qed

text \<open>
  C1 at the tiles 30 wide and 10 high and the box 100 wide and 10 high, with spacing
  0. For the directions \<^verbatim>\<open>"left"\<close> and \<^verbatim>\<open>"bottom"\<close> the call of
  \<^verbatim>\<open>generateChildrenRepeat\<close> returns for no fuel: the loop does not terminate. The
  first tile parsed leftwards has its left edge at 130, outside the box, whose right
  edge is at 100. For the direction \<^verbatim>\<open>"right"\<close> the call returns the tiles at 0, 30
  and 60, all within the box, and stops at the fourth, which does not fit.
\<close>

theorem generateChildrenRepeat_left_bottom_never_return:
  "(\<forall>fuel. generateChildrenRepeat fuel (tileRepeat ''left'') exampleBox ''left'' (Number 0)
        (exampleSeedr tileRegistry 0) = OutOfFuel)
   \<and> (\<forall>fuel. generateChildrenRepeat fuel (tileRepeat ''bottom'') exampleBox ''bottom'' (Number 0)
        (exampleSeedr tileRegistry 0) = OutOfFuel)
   \<and> parseChoice (typedChild ''Tile'' ''Known'') exampleBox ''left'' (exampleSeedr tileRegistry 0)
       = Returned (Choice ''Tile'' ''Known'' None
           \<lparr>width = 30, height = 10, top' = 10, right = 100, bottom = 0, left = 130\<rparr> None)
           (exampleSeedr tileRegistry 0)
   \<and> generateChildrenRepeat 4 (tileRepeat ''right'') exampleBox ''right'' (Number 0)
        (exampleSeedr tileRegistry 0)
       = Returned [tileAt 0, tileAt 30, tileAt 60] (exampleSeedr tileRegistry 0)"
proof -
  have reg: "possibilities (exampleSeedr tileRegistry 0) = tileRegistry"
    by (simp add: exampleSeedr_def)
  have "generateChildrenRepeat fuel (tileRepeat ''left'') exampleBox ''left'' (Number 0)
        (exampleSeedr tileRegistry 0) = OutOfFuel" for fuel
    by (simp add: generateChildrenRepeat_def tile_left_forever[OF reg] exampleBox_def)
  moreover have "generateChildrenRepeat fuel (tileRepeat ''bottom'') exampleBox ''bottom'' (Number 0)
        (exampleSeedr tileRegistry 0) = OutOfFuel" for fuel
    by (simp add: generateChildrenRepeat_def tile_bottom_forever[OF reg] exampleBox_def)
  moreover have "parseChoice (typedChild ''Tile'' ''Known'') exampleBox ''left'' (exampleSeedr tileRegistry 0)
       = Returned (Choice ''Tile'' ''Known'' None
           \<lparr>width = 30, height = 10, top' = 10, right = 100, bottom = 0, left = 130\<rparr> None)
           (exampleSeedr tileRegistry 0)"
    by (simp add: tile_parse[OF reg] setLeadingEdge_def exampleBox_def)
  ultimately show ?thesis
    using tile_right_run by simp
qed

end
